theory Spec2Isabelle
  imports Complex_Main "HOL-Library.Sublist"
begin

section \<open>JavaScript string primitives\<close>

text \<open>
  Strings are lists of characters. The primitives below follow ECMAScript on ASCII text:
  \<open>toLowerCase\<close> and \<open>toUpperCase\<close> change the 26 letters only, and white space
  (for \<open>trim\<close> and \<open>parseInt\<close>) is tab, line feed, vertical tab, form feed, carriage
  return and space. Numbers that the source holds in doubles are exact here: line numbers
  are integers, scores and durations are rationals.
\<close>

definition ascii_upper :: string where
  "ascii_upper = ''ABCDEFGHIJKLMNOPQRSTUVWXYZ''"

definition ascii_lower :: string where
  "ascii_lower = ''abcdefghijklmnopqrstuvwxyz''"

definition lower_char :: "char \<Rightarrow> char" where
  "lower_char c = (case map_of (zip ascii_upper ascii_lower) c of None \<Rightarrow> c | Some d \<Rightarrow> d)"

definition upper_char :: "char \<Rightarrow> char" where
  "upper_char c = (case map_of (zip ascii_lower ascii_upper) c of None \<Rightarrow> c | Some d \<Rightarrow> d)"

definition toLowerCase :: "string \<Rightarrow> string" where
  "toLowerCase s = map lower_char s"

definition toUpperCase :: "string \<Rightarrow> string" where
  "toUpperCase s = map upper_char s"

definition js_whitespace :: "char \<Rightarrow> bool" where
  "js_whitespace c = (c \<in> set [CHR 0x09, CHR 0x0A, CHR 0x0B, CHR 0x0C, CHR 0x0D, CHR '' ''])"

definition trim :: "string \<Rightarrow> string" where
  "trim s = rev (dropWhile js_whitespace (rev (dropWhile js_whitespace s)))"

text \<open>
  \<open>s.indexOf(pat, from)\<close>: the least position at or after \<open>from\<close> where \<open>pat\<close>
  starts, and \<open>-1\<close> when there is none. \<open>index_at pat s k\<close> searches the suffix \<open>s\<close>
  that starts at position \<open>k\<close>.
\<close>

fun index_at :: "string \<Rightarrow> string \<Rightarrow> nat \<Rightarrow> int" where
  "index_at pat [] k = (if pat = [] then int k else - 1)"
| "index_at pat (c # cs) k = (if prefix pat (c # cs) then int k else index_at pat cs (Suc k))"

definition indexOf :: "string \<Rightarrow> string \<Rightarrow> nat \<Rightarrow> int" where
  "indexOf s pat from = index_at pat (drop from s) (min from (length s))"

definition js_includes :: "string \<Rightarrow> string \<Rightarrow> bool" where
  "js_includes s pat = (indexOf s pat 0 \<noteq> - 1)"

text \<open>\<open>s.substring(a, b)\<close> clamps both indices to the length and swaps them when \<open>a > b\<close>.\<close>

definition substring :: "string \<Rightarrow> nat \<Rightarrow> nat \<Rightarrow> string" where
  "substring s a b =
     (let a' = min a (length s); b' = min b (length s);
          lo = min a' b'; hi = max a' b'
      in take (hi - lo) (drop lo s))"

definition substring_from :: "string \<Rightarrow> nat \<Rightarrow> string" where
  "substring_from s a = drop (min a (length s)) s"

text \<open>
  \<open>s.split(sep)\<close>: the pieces between the occurrences of \<open>sep\<close>, found left to right
  without overlap; an empty separator splits into single characters.
\<close>

function split_from :: "string \<Rightarrow> string \<Rightarrow> string \<Rightarrow> string list" where
  "split_from sep cur [] = [rev cur]"
| "split_from sep cur (c # cs) =
     (if sep \<noteq> [] \<and> prefix sep (c # cs)
      then rev cur # split_from sep [] (drop (length sep) (c # cs))
      else split_from sep (c # cur) cs)"
  by pat_completeness auto
termination
  by (relation "measure (\<lambda>(sep, cur, s). length s)") (auto simp: neq_Nil_conv)

definition js_split :: "string \<Rightarrow> string \<Rightarrow> string list" where
  "js_split sep s = (if sep = [] then map (\<lambda>c. [c]) s else split_from sep [] s)"

text \<open>
  \<open>parseInt(s, 10)\<close>: skip leading white space, read an optional sign, then the longest
  run of decimal digits; \<open>NaN\<close> (here \<open>None\<close>) when that run is empty. What follows
  the digits is ignored.
\<close>

definition is_digit :: "char \<Rightarrow> bool" where
  "is_digit c = (c \<in> set ''0123456789'')"

definition digit_value :: "char \<Rightarrow> nat" where
  "digit_value c = length (takeWhile (\<lambda>d. d \<noteq> c) ''0123456789'')"

definition digits_value :: "string \<Rightarrow> nat" where
  "digits_value ds = foldl (\<lambda>acc c. 10 * acc + digit_value c) 0 ds"

definition js_parseInt :: "string \<Rightarrow> int option" where
  "js_parseInt s =
     (let t = dropWhile js_whitespace s;
          neg = (case t of [] \<Rightarrow> False | c # _ \<Rightarrow> c = CHR ''-'');
          r = (case t of [] \<Rightarrow> [] | c # cs \<Rightarrow> if c = CHR ''-'' \<or> c = CHR ''+'' then cs else t);
          ds = takeWhile is_digit r
      in if ds = [] then None
         else Some (if neg then - int (digits_value ds) else int (digits_value ds)))"

section \<open>The path module and the platform\<close>

text \<open>
  Node's \<open>path\<close> module is not part of the repository: its functions are parameters of
  the model, and every theorem holds for any implementation of them. \<open>os.EOL\<close> is
  \<open>\n\<close> on POSIX and \<open>\r\n\<close> on Windows.
\<close>

record path_module =
  path_resolve :: "string \<Rightarrow> string \<Rightarrow> string"
  path_relative :: "string \<Rightarrow> string \<Rightarrow> string"
  path_basename :: "string \<Rightarrow> string"
  path_extname :: "string \<Rightarrow> string"
  path_join :: "string \<Rightarrow> string \<Rightarrow> string"

datatype platform = Posix | Win32

definition EOL :: "platform \<Rightarrow> string" where
  "EOL p = (case p of Posix \<Rightarrow> [CHR 0x0A] | Win32 \<Rightarrow> [CHR 0x0D, CHR 0x0A])"

section \<open>Parsing the output of git grep and grep\<close>

record GrepMatch =
  filePath :: string
  lineNumber :: int
  line :: string

text \<open>
  \<open>parseGrepLine\<close> is the body of the loop of \<open>parseGrepOutput\<close>: it takes the results
  so far and returns them, with one match pushed at the end or unchanged after a
  \<open>continue\<close>.
\<close>

definition parseGrepLine :: "path_module \<Rightarrow> string \<Rightarrow> string \<Rightarrow> GrepMatch list \<Rightarrow> GrepMatch list" where
  "parseGrepLine P basePath lin results =
     (if trim lin = [] then results
      else
        let firstColonIndex = indexOf lin '':'' 0 in
        if firstColonIndex = - 1 then results
        else
          let secondColonIndex = indexOf lin '':'' (nat (firstColonIndex + 1)) in
          if secondColonIndex = - 1 then results
          else
            let filePathRaw = substring lin 0 (nat firstColonIndex);
                lineNumberStr = substring lin (nat (firstColonIndex + 1)) (nat secondColonIndex);
                lineContent = substring_from lin (nat (secondColonIndex + 1))
            in case js_parseInt lineNumberStr of
                 None \<Rightarrow> results
               | Some n \<Rightarrow>
                   let absoluteFilePath = path_resolve P basePath filePathRaw;
                       relativeFilePath = path_relative P basePath absoluteFilePath
                   in results @
                      [\<lparr>filePath = (if relativeFilePath \<noteq> [] then relativeFilePath
                                    else path_basename P absoluteFilePath),
                        lineNumber = n,
                        line = lineContent\<rparr>])"

definition parseGrepOutput :: "path_module \<Rightarrow> platform \<Rightarrow> string \<Rightarrow> string \<Rightarrow> GrepMatch list" where
  "parseGrepOutput P plat output basePath =
     (if output = [] then []
      else foldl (\<lambda>results lin. parseGrepLine P basePath lin results) [] (js_split (EOL plat) output))"

text \<open>
  The same parser in the words of the specification: a line is cut at its first colon and
  at the first colon after that; without two colons it has no fields.
\<close>

definition not_colon :: "char \<Rightarrow> bool" where
  "not_colon c = (c \<noteq> CHR '':'')"

definition grep_line_fields :: "string \<Rightarrow> (string \<times> string \<times> string) option" where
  "grep_line_fields lin =
     (case dropWhile not_colon lin of
        [] \<Rightarrow> None
      | _ # rest \<Rightarrow>
          (case dropWhile not_colon rest of
             [] \<Rightarrow> None
           | _ # content \<Rightarrow> Some (takeWhile not_colon lin, takeWhile not_colon rest, content)))"

definition relative_or_basename :: "path_module \<Rightarrow> string \<Rightarrow> string \<Rightarrow> string" where
  "relative_or_basename P basePath raw =
     (let rel = path_relative P basePath (path_resolve P basePath raw)
      in if rel = [] then path_basename P (path_resolve P basePath raw) else rel)"

definition grep_line_match :: "path_module \<Rightarrow> string \<Rightarrow> string \<Rightarrow> GrepMatch option" where
  "grep_line_match P basePath lin =
     (case grep_line_fields lin of
        None \<Rightarrow> None
      | Some (p, n, c) \<Rightarrow>
          map_option (\<lambda>k. \<lparr>filePath = relative_or_basename P basePath p, lineNumber = k, line = c\<rparr>)
            (js_parseInt n))"

section \<open>Relevance heuristics\<close>

text \<open>
  \<open>new RegExp(pattern, 'i')\<close> either throws a syntax error or gives a regular expression
  whose \<open>test\<close> is a predicate on lines. The regular-expression engine is part of the
  JavaScript runtime, so it is a parameter: \<open>Inl\<close> carries the error message, \<open>Inr\<close> the
  predicate. Whether a pattern is syntactically legal does not depend on the \<open>i\<close> flag,
  so the same parameter decides \<open>new RegExp(pattern)\<close>.
\<close>

type_synonym regexp_engine = "string \<Rightarrow> string + (string \<Rightarrow> bool)"

definition favored_extensions :: "string list" where
  "favored_extensions = [''.md'', ''.txt'', ''.js'', ''.ts'', ''.py'', ''.java'']"

definition calculateRelevanceScore :: "path_module \<Rightarrow> GrepMatch \<Rightarrow> string \<Rightarrow> rat" where
  "calculateRelevanceScore P match pattern =
     (let score = 5 / 10;
          score = (if js_includes (toLowerCase (line match)) (toLowerCase pattern)
                   then score + 2 / 10 else score);
          lineLength = length (trim (line match));
          score = (if lineLength < 100 then score + 1 / 10 else score);
          score = (if lineLength < 50 then score + 1 / 10 else score);
          trimmedLine = trim (line match);
          matchIndex = indexOf (toLowerCase trimmedLine) (toLowerCase pattern) 0;
          score = (if matchIndex < 10 then score + 1 / 10 else score);
          ext = toLowerCase (path_extname P (filePath match));
          score = (if ext \<in> set favored_extensions then score + 1 / 10 else score)
      in min 1 score)"

text \<open>
  The score in the words of the specification: the position increment is for a match
  position within the first 10 characters of the trimmed line.
\<close>

definition spec_relevanceScore :: "path_module \<Rightarrow> GrepMatch \<Rightarrow> string \<Rightarrow> rat" where
  "spec_relevanceScore P match pattern =
     (let idx = indexOf (toLowerCase (trim (line match))) (toLowerCase pattern) 0
      in min 1
          (5 / 10
           + (if js_includes (toLowerCase (line match)) (toLowerCase pattern) then 2 / 10 else 0)
           + (if length (trim (line match)) < 100 then 1 / 10 else 0)
           + (if length (trim (line match)) < 50 then 1 / 10 else 0)
           + (if 0 \<le> idx \<and> idx < 10 then 1 / 10 else 0)
           + (if toLowerCase (path_extname P (filePath match)) \<in> set favored_extensions
              then 1 / 10 else 0)))"

fun js_join :: "string \<Rightarrow> string list \<Rightarrow> string" where
  "js_join sep [] = []"
| "js_join sep [x] = x"
| "js_join sep (x # y # ys) = x @ sep @ js_join sep (y # ys)"

definition getMatchReason :: "regexp_engine \<Rightarrow> path_module \<Rightarrow> GrepMatch \<Rightarrow> string \<Rightarrow> string + string" where
  "getMatchReason RegExp P match pattern =
     (let reasons = [];
          reasons = (if js_includes (toLowerCase (line match)) (toLowerCase pattern)
                     then reasons @ [''exact pattern match''] else reasons)
      in case RegExp pattern of
           Inl err \<Rightarrow> Inl err
         | Inr regex_test \<Rightarrow>
             let reasons = (if regex_test (line match)
                            then reasons @ [''regex pattern match''] else reasons);
                 ext = path_extname P (filePath match);
                 reasons = (if ext \<noteq> [] then reasons @ [''found in '' @ ext @ '' file'']
                            else reasons);
                 reasons = (if lineNumber match < 10 then reasons @ [''near file beginning'']
                            else reasons);
                 joined = js_join '', '' reasons
             in Inr (if joined \<noteq> [] then joined else ''pattern match''))"

definition backslash :: char where
  "backslash = CHR 0x5C"

definition regex_special_chars :: string where
  "regex_special_chars = ''.*+?^${}()|[]'' @ [backslash]"

definition calculatePatternComplexity :: "string \<Rightarrow> rat" where
  "calculatePatternComplexity pattern =
     (let complexity = 0;
          regexMatches = filter (\<lambda>c. c \<in> set regex_special_chars) pattern;
          complexity = (if regexMatches \<noteq> []
                        then complexity + min (of_nat (length regexMatches) * (1 / 10)) (5 / 10)
                        else complexity);
          complexity = complexity + min (of_nat (length pattern) * (1 / 100)) (3 / 10);
          complexity = (if pattern \<noteq> toLowerCase pattern \<and> pattern \<noteq> toUpperCase pattern
                        then complexity + 1 / 10 else complexity);
          complexity = (if js_includes pattern [backslash, CHR ''b'']
                           \<or> js_includes pattern [backslash, CHR ''w'']
                           \<or> js_includes pattern [backslash, CHR ''d'']
                        then complexity + 2 / 10 else complexity)
      in min complexity 1)"

text \<open>
  The complexity in the words of the specification, where the shorthand escapes are those
  for a word boundary, a word character, white space and a digit.
\<close>

definition spec_patternComplexity :: "string \<Rightarrow> rat" where
  "spec_patternComplexity pattern =
     min 1
       (min (of_nat (length (filter (\<lambda>c. c \<in> set regex_special_chars) pattern)) * (1 / 10)) (5 / 10)
        + min (of_nat (length pattern) * (1 / 100)) (3 / 10)
        + (if pattern \<noteq> toLowerCase pattern \<and> pattern \<noteq> toUpperCase pattern then 1 / 10 else 0)
        + (if js_includes pattern [backslash, CHR ''b'']
              \<or> js_includes pattern [backslash, CHR ''w'']
              \<or> js_includes pattern [backslash, CHR ''s'']
              \<or> js_includes pattern [backslash, CHR ''d'']
           then 2 / 10 else 0))"

section \<open>Search telemetry\<close>

text \<open>
  A \<open>SearchAnalytics\<close> object is shared: the session that fills it and the history of the
  \<open>TestBenchAnalytics\<close> instance hold the same object. The model keeps the objects in a
  heap (a list, addressed by position); a session and the history hold addresses. The
  fields \<open>embeddingDetails\<close> and \<open>searchParameters\<close>, which the search tool never sets,
  are left out, and so is what is printed on the console.
\<close>

record MatchAnalytics =
  ma_filePath :: string
  ma_lineNumber :: "int option"
  matchText :: string
  contextBefore :: "string option"
  contextAfter :: "string option"
  relevanceScore :: "rat option"
  matchReason :: string
  fileSize :: nat
  fileLastModified :: rat

record RankingFactor =
  factor :: string
  weight :: rat
  factor_value :: rat
  impact :: rat
  explanation :: string

datatype search_kind = KindGrep | KindEmbedding | KindGlob | KindReadFiles

definition search_kind_name :: "search_kind \<Rightarrow> string" where
  "search_kind_name k =
     (case k of KindGrep \<Rightarrow> ''grep'' | KindEmbedding \<Rightarrow> ''embedding''
      | KindGlob \<Rightarrow> ''glob'' | KindReadFiles \<Rightarrow> ''read_files'')"

record SearchAnalytics =
  timestamp :: rat
  query :: string
  searchType :: search_kind
  targetPath :: string
  sa_pattern :: "string option"
  executionTimeMs :: rat
  resultsFound :: nat
  filesScanned :: nat
  matchDetails :: "MatchAnalytics list"
  searchStrategy :: string
  rankingFactors :: "RankingFactor list option"
  toolDecisionReason :: "string option"

record TestBenchAnalytics =
  heap :: "SearchAnalytics list"
  searchHistory :: "nat list"
  analyticsEnabled :: bool

datatype completion = HistoryCallback

record SearchSession =
  analytics :: "nat option"
  startTime :: rat
  onComplete :: "completion option"

definition determineSearchStrategy :: "string \<Rightarrow> search_kind \<Rightarrow> string" where
  "determineSearchStrategy q kind =
     (let strategies = [];
          strategies = (if js_includes q ''*'' \<or> js_includes q ''?''
                        then strategies @ [''glob-pattern''] else strategies);
          strategies = (if list_ex (\<lambda>c. c \<in> set regex_special_chars) q
                        then strategies @ [''regex-search''] else strategies);
          strategies = (if length (js_split '' '' q) > 1
                        then strategies @ [''multi-term''] else strategies);
          strategies = (if kind = KindEmbedding
                        then strategies @ [''semantic-similarity''] else strategies);
          strategies = strategies @ [''tool-'' @ search_kind_name kind]
      in js_join ''+'' strategies)"

text \<open>
  \<open>startSearch\<close> takes the two clock readings it makes: \<open>Date.now()\<close> for the time stamp
  and \<open>performance.now()\<close> for the start instant of the session.
\<close>

definition startSearch ::
    "TestBenchAnalytics \<Rightarrow> rat \<Rightarrow> rat \<Rightarrow> string \<Rightarrow> search_kind \<Rightarrow> string
     \<Rightarrow> TestBenchAnalytics \<times> SearchSession" where
  "startSearch tb date_now perf_now q kind target =
     (if \<not> analyticsEnabled tb
      then (tb, \<lparr>analytics = None, startTime = perf_now, onComplete = None\<rparr>)
      else
        let a = \<lparr>timestamp = date_now, query = q, searchType = kind, targetPath = target,
                 sa_pattern = None, executionTimeMs = 0, resultsFound = 0, filesScanned = 0,
                 matchDetails = [], searchStrategy = determineSearchStrategy q kind,
                 rankingFactors = None, toolDecisionReason = None\<rparr>
        in (tb\<lparr>heap := heap tb @ [a]\<rparr>,
            \<lparr>analytics = Some (length (heap tb)), startTime = perf_now,
             onComplete = Some HistoryCallback\<rparr>))"

definition update_object ::
    "TestBenchAnalytics \<Rightarrow> nat \<Rightarrow> (SearchAnalytics \<Rightarrow> SearchAnalytics) \<Rightarrow> TestBenchAnalytics" where
  "update_object tb r f = tb\<lparr>heap := (heap tb)[r := f (heap tb ! r)]\<rparr>"

definition addMatch :: "TestBenchAnalytics \<Rightarrow> SearchSession \<Rightarrow> MatchAnalytics \<Rightarrow> TestBenchAnalytics" where
  "addMatch tb sess m =
     (case analytics sess of
        None \<Rightarrow> tb
      | Some r \<Rightarrow> update_object tb r
          (\<lambda>a. a\<lparr>matchDetails := matchDetails a @ [m], resultsFound := resultsFound a + 1\<rparr>))"

definition setFilesScanned :: "TestBenchAnalytics \<Rightarrow> SearchSession \<Rightarrow> nat \<Rightarrow> TestBenchAnalytics" where
  "setFilesScanned tb sess n =
     (case analytics sess of
        None \<Rightarrow> tb
      | Some r \<Rightarrow> update_object tb r (\<lambda>a. a\<lparr>filesScanned := n\<rparr>))"

definition setPattern :: "TestBenchAnalytics \<Rightarrow> SearchSession \<Rightarrow> string \<Rightarrow> TestBenchAnalytics" where
  "setPattern tb sess p =
     (case analytics sess of
        None \<Rightarrow> tb
      | Some r \<Rightarrow> update_object tb r (\<lambda>a. a\<lparr>sa_pattern := Some p\<rparr>))"

definition addRankingFactor :: "TestBenchAnalytics \<Rightarrow> SearchSession \<Rightarrow> RankingFactor \<Rightarrow> TestBenchAnalytics" where
  "addRankingFactor tb sess f =
     (case analytics sess of
        None \<Rightarrow> tb
      | Some r \<Rightarrow> update_object tb r
          (\<lambda>a. a\<lparr>rankingFactors :=
                   Some ((case rankingFactors a of None \<Rightarrow> [] | Some fs \<Rightarrow> fs) @ [f])\<rparr>))"

definition setToolDecisionReason :: "TestBenchAnalytics \<Rightarrow> SearchSession \<Rightarrow> string \<Rightarrow> TestBenchAnalytics" where
  "setToolDecisionReason tb sess reason =
     (case analytics sess of
        None \<Rightarrow> tb
      | Some r \<Rightarrow> update_object tb r (\<lambda>a. a\<lparr>toolDecisionReason := Some reason\<rparr>))"

definition isActive :: "SearchSession \<Rightarrow> bool" where
  "isActive sess = (analytics sess \<noteq> None)"

text \<open>
  \<open>logSearchResults\<close> prints the report; what it leaves behind is the order of
  \<open>matchDetails\<close>, which it sorts in place by descending relevance (a missing score
  counts as 0; the sort is stable).
\<close>

definition logSearchResults :: "SearchAnalytics \<Rightarrow> SearchAnalytics" where
  "logSearchResults a =
     a\<lparr>matchDetails :=
         sort_key (\<lambda>m. - (case relevanceScore m of None \<Rightarrow> 0 | Some v \<Rightarrow> v)) (matchDetails a)\<rparr>"

text \<open>
  The completion callback that \<open>startSearch\<close> registers: push the object on the history,
  then log it.
\<close>

definition run_callback :: "TestBenchAnalytics \<Rightarrow> nat \<Rightarrow> TestBenchAnalytics" where
  "run_callback tb r =
     update_object (tb\<lparr>searchHistory := searchHistory tb @ [r]\<rparr>) r logSearchResults"

text \<open>\<open>complete\<close> takes the reading of \<open>performance.now()\<close> it makes.\<close>

definition complete ::
    "TestBenchAnalytics \<Rightarrow> SearchSession \<Rightarrow> rat \<Rightarrow> TestBenchAnalytics \<times> nat option" where
  "complete tb sess perf_now =
     (case analytics sess of
        None \<Rightarrow> (tb, None)
      | Some r \<Rightarrow>
          let tb1 = update_object tb r (\<lambda>a. a\<lparr>executionTimeMs := perf_now - startTime sess\<rparr>);
              tb2 = (case onComplete sess of None \<Rightarrow> tb1 | Some HistoryCallback \<Rightarrow> run_callback tb1 r)
          in (tb2, Some r))"

definition getSearchHistory :: "TestBenchAnalytics \<Rightarrow> SearchAnalytics list" where
  "getSearchHistory tb = map (\<lambda>r. heap tb ! r) (searchHistory tb)"

section \<open>The world outside the search tool\<close>

text \<open>
  The file system, the child processes, the glob traversal, the schema validator and the
  workspace policy are what the tool consumes; they are fields of a \<open>world\<close>, fixed for
  the duration of one search. Every function that reaches the file system or starts a
  process returns, next to its result, the list of the accesses it made, in order.
\<close>

datatype io_event =
    StatSync string
  | GitRepoCheck string
  | SpawnProcess string "string list" "string option"
  | GlobStream string string
  | ReadFile string
  | Stat string

text \<open>
  \<open>fs.statSync\<close> returns the stats of a directory or of something else, or throws a
  system error with a code and a printed form. A child process either fails to start or
  closes with an exit code (\<open>null\<close> when a signal killed it), its standard output and
  the chunks of its standard error. A glob stream yields files and may then fail.
\<close>

datatype stat_result = IsDirectory | NotDirectory | StatFails string string

datatype proc_result = SpawnError string | Closed "int option" string "string list"

record GrepToolParams =
  param_pattern :: string
  param_path :: "string option"
  param_include :: "string option"

record world =
  os_platform :: platform
  paths :: path_module
  RegExp :: regexp_engine
  toFixed :: "nat \<Rightarrow> rat \<Rightarrow> string"
  schemaErrors :: "GrepToolParams \<Rightarrow> string option"
  targetDir :: string
  workspaceDirectories :: "string list"
  isPathWithinWorkspace :: "string \<Rightarrow> bool"
  statSync :: "string \<Rightarrow> stat_result"
  isGitRepository :: "string \<Rightarrow> bool"
  spawnProcess :: "string \<Rightarrow> string list \<Rightarrow> string option \<Rightarrow> proc_result"
  globStream :: "string \<Rightarrow> string \<Rightarrow> string list \<Rightarrow> bool \<Rightarrow> string list \<times> string option"
  readFile :: "string \<Rightarrow> string + string"
  fsStat :: "string \<Rightarrow> string + nat \<times> rat"

text \<open>A string that may be \<open>undefined\<close> is truthy when it is present and not empty.\<close>

definition truthy :: "string option \<Rightarrow> bool" where
  "truthy v = (case v of None \<Rightarrow> False | Some x \<Rightarrow> x \<noteq> [])"

definition dquote :: string where
  "dquote = [CHR 0x22]"

text \<open>
  How a template literal prints an integer: its decimal digits, least significant digit
  first onto an accumulator, with a minus sign for a negative number.
\<close>

function nat_digits :: "nat \<Rightarrow> string \<Rightarrow> string" where
  "nat_digits n acc =
     (if n div 10 = 0 then (''0123456789'' ! (n mod 10)) # acc
      else nat_digits (n div 10) ((''0123456789'' ! (n mod 10)) # acc))"
  by pat_completeness auto
termination
  by (relation "measure fst") auto

declare nat_digits.simps [simp del]

definition show_nat :: "nat \<Rightarrow> string" where
  "show_nat n = nat_digits n []"

definition show_int :: "int \<Rightarrow> string" where
  "show_int i = (if 0 \<le> i then show_nat (nat i) else CHR ''-'' # show_nat (nat (- i)))"

section \<open>Validation\<close>

definition resolveAndValidatePath :: "world \<Rightarrow> string option \<Rightarrow> (string + string option) \<times> io_event list" where
  "resolveAndValidatePath W relativePath =
     (if \<not> truthy relativePath then (Inr None, [])
      else
        let rp = the relativePath;
            target = path_resolve (paths W) (targetDir W) rp
        in if \<not> isPathWithinWorkspace W target
           then (Inl (''Path validation failed: Attempted path '' @ dquote @ rp @ dquote
                      @ '' resolves outside the allowed workspace directories: ''
                      @ js_join '', '' (workspaceDirectories W)), [])
           else
             (case statSync W target of
                IsDirectory \<Rightarrow> Inr (Some target)
              | NotDirectory \<Rightarrow>
                  Inl (''Failed to access path stats for '' @ target
                       @ '': Error: Path is not a directory: '' @ target)
              | StatFails code printed \<Rightarrow>
                  if code \<noteq> ''ENOENT'' then Inl (''Path does not exist: '' @ target)
                  else Inl (''Failed to access path stats for '' @ target @ '': '' @ printed),
              [StatSync target]))"

definition validateToolParams :: "world \<Rightarrow> GrepToolParams \<Rightarrow> string option \<times> io_event list" where
  "validateToolParams W params =
     (if truthy (schemaErrors W params) then (schemaErrors W params, [])
      else
        case RegExp W (param_pattern params) of
          Inl err \<Rightarrow>
            (Some (''Invalid regular expression pattern provided: '' @ param_pattern params
                   @ ''. Error: '' @ err), [])
        | Inr _ \<Rightarrow>
            if truthy (param_path params)
            then (case resolveAndValidatePath W (param_path params) of
                    (Inl err, tr) \<Rightarrow> (Some err, tr)
                  | (Inr _, tr) \<Rightarrow> (None, tr))
            else (None, []))"

section \<open>The three search strategies\<close>

definition isCommandAvailable :: "world \<Rightarrow> string \<Rightarrow> bool \<times> io_event list" where
  "isCommandAvailable W command =
     (let checkCommand = (if os_platform W = Win32 then ''where'' else ''command'');
          checkArgs = (if os_platform W = Win32 then [command] else [''-v'', command])
      in (case spawnProcess W checkCommand checkArgs None of
            Closed code _ _ \<Rightarrow> code = Some 0
          | SpawnError _ \<Rightarrow> False,
          [SpawnProcess checkCommand checkArgs None]))"

text \<open>
  What the promise around a child process settles to: resolved with the text to parse, or
  rejected with an error message.
\<close>

datatype settled = Resolved string | Rejected string

definition show_exit_code :: "int option \<Rightarrow> string" where
  "show_exit_code code = (case code of None \<Rightarrow> ''null'' | Some c \<Rightarrow> show_int c)"

definition gitGrepSettled :: "proc_result \<Rightarrow> settled" where
  "gitGrepSettled r =
     (case r of
        SpawnError msg \<Rightarrow> Rejected (''Failed to start git grep: '' @ msg)
      | Closed code stdoutData stderrChunks \<Rightarrow>
          if code = Some 0 then Resolved stdoutData
          else if code = Some 1 then Resolved []
          else Rejected (''git grep exited with code '' @ show_exit_code code @ '': ''
                         @ concat stderrChunks))"

text \<open>
  The two kinds of standard-error chunk that system grep's listener drops: one that
  contains \<open>Permission denied\<close>, and one that matches \<open>/grep:.*: Is a directory/i\<close>,
  that is, \<open>grep:\<close> followed on the same line by \<open>: Is a directory\<close>, in any letter
  case.
\<close>

definition line_terminator :: "char \<Rightarrow> bool" where
  "line_terminator c = (c = CHR 0x0A \<or> c = CHR 0x0D)"

fun is_a_directory_message :: "string \<Rightarrow> bool" where
  "is_a_directory_message [] = False"
| "is_a_directory_message (c # cs) =
     ((prefix ''grep:'' (toLowerCase (c # cs))
       \<and> js_includes (toLowerCase (takeWhile (\<lambda>d. \<not> line_terminator d) (drop 5 (c # cs))))
            '': is a directory'')
      \<or> is_a_directory_message cs)"

definition suppressed_chunk :: "string \<Rightarrow> bool" where
  "suppressed_chunk chunk = (js_includes chunk ''Permission denied'' \<or> is_a_directory_message chunk)"

definition systemGrepSettled :: "proc_result \<Rightarrow> settled" where
  "systemGrepSettled r =
     (case r of
        SpawnError msg \<Rightarrow> Rejected (''Failed to start system grep: '' @ msg)
      | Closed code stdoutData stderrChunks \<Rightarrow>
          let stderrData = trim (concat (filter (\<lambda>chunk. \<not> suppressed_chunk chunk) stderrChunks))
          in if code = Some 0 then Resolved stdoutData
             else if code = Some 1 then Resolved []
             else if stderrData \<noteq> []
                  then Rejected (''System grep exited with code '' @ show_exit_code code @ '': ''
                                 @ stderrData)
                  else Resolved [])"

text \<open>\<open>content.split(/\r?\n/)\<close>: cut at every line feed, and at a carriage return before it.\<close>

fun strip_cr :: "string list \<Rightarrow> string list" where
  "strip_cr [] = []"
| "strip_cr [x] = [x]"
| "strip_cr (x # y # ys) =
     (if x \<noteq> [] \<and> last x = CHR 0x0D then butlast x else x) # strip_cr (y # ys)"

definition split_lines :: "string \<Rightarrow> string list" where
  "split_lines content = strip_cr (js_split [CHR 0x0A] content)"

definition fallback_ignores :: "string list" where
  "fallback_ignores = [''.git/**'', ''node_modules/**'', ''bower_components/**'', ''.svn/**'', ''.hg/**'']"

definition file_matches :: "world \<Rightarrow> (string \<Rightarrow> bool) \<Rightarrow> string \<Rightarrow> string \<Rightarrow> GrepMatch list" where
  "file_matches W regex_test absolutePath fileAbsolutePath =
     (case readFile W fileAbsolutePath of
        Inl _ \<Rightarrow> []
      | Inr content \<Rightarrow>
          map (\<lambda>(lin, index).
                 \<lparr>filePath =
                    (if path_relative (paths W) absolutePath fileAbsolutePath \<noteq> []
                     then path_relative (paths W) absolutePath fileAbsolutePath
                     else path_basename (paths W) fileAbsolutePath),
                  lineNumber = int index + 1,
                  line = lin\<rparr>)
            (filter (\<lambda>(lin, index). regex_test lin)
               (zip (split_lines content) [0 ..< length (split_lines content)])))"

definition javascriptFallback ::
    "world \<Rightarrow> string \<Rightarrow> string \<Rightarrow> string option \<Rightarrow> (string + GrepMatch list) \<times> io_event list" where
  "javascriptFallback W pattern absolutePath incl =
     (let globPattern = (if truthy incl then the incl else ''**/*'');
          (files, failure) = globStream W globPattern absolutePath fallback_ignores True
      in case RegExp W pattern of
           Inl err \<Rightarrow> (Inl err, [GlobStream globPattern absolutePath])
         | Inr regex_test \<Rightarrow>
             (case failure of
                Some err \<Rightarrow> Inl err
              | None \<Rightarrow> Inr (concat (map (file_matches W regex_test absolutePath) files)),
              GlobStream globPattern absolutePath # map ReadFile files))"

definition systemGrepArgs :: "string \<Rightarrow> string option \<Rightarrow> string list" where
  "systemGrepArgs pattern incl =
     [''-r'', ''-n'', ''-H'', ''-E'']
     @ map (\<lambda>dir. ''--exclude-dir='' @ dir) [''.git'', ''node_modules'', ''bower_components'']
     @ (if truthy incl then [''--include='' @ the incl] else [])
     @ [pattern, ''.'']"

definition systemGrepStrategy ::
    "world \<Rightarrow> string \<Rightarrow> string \<Rightarrow> string option \<Rightarrow> (string + GrepMatch list) \<times> io_event list" where
  "systemGrepStrategy W pattern absolutePath incl =
     (let (grepAvailable, tr1) = isCommandAvailable W ''grep''
      in if grepAvailable
         then
           let grepArgs = systemGrepArgs pattern incl;
               tr2 = tr1 @ [SpawnProcess ''grep'' grepArgs (Some absolutePath)]
           in case systemGrepSettled (spawnProcess W ''grep'' grepArgs (Some absolutePath)) of
                Resolved output \<Rightarrow>
                  (Inr (parseGrepOutput (paths W) (os_platform W) output absolutePath), tr2)
              | Rejected _ \<Rightarrow>
                  (let (res, tr3) = javascriptFallback W pattern absolutePath incl
                   in (res, tr2 @ tr3))
         else
           let (res, tr3) = javascriptFallback W pattern absolutePath incl
           in (res, tr1 @ tr3))"

definition gitGrepArgs :: "string \<Rightarrow> string option \<Rightarrow> string list" where
  "gitGrepArgs pattern incl =
     [''grep'', ''--untracked'', ''-n'', ''-E'', ''--ignore-case'', pattern]
     @ (if truthy incl then [''--'', the incl] else [])"

definition gitAvailable :: "world \<Rightarrow> string \<Rightarrow> bool \<times> io_event list" where
  "gitAvailable W absolutePath =
     (if isGitRepository W absolutePath
      then (let (avail, tr) = isCommandAvailable W ''git'' in (avail, GitRepoCheck absolutePath # tr))
      else (False, [GitRepoCheck absolutePath]))"

definition performGrepSearch ::
    "world \<Rightarrow> string \<Rightarrow> string \<Rightarrow> string option \<Rightarrow> (string + GrepMatch list) \<times> io_event list" where
  "performGrepSearch W pattern absolutePath incl =
     (let (git, tr1) = gitAvailable W absolutePath
      in if git
         then
           let gitArgs = gitGrepArgs pattern incl;
               tr2 = tr1 @ [SpawnProcess ''git'' gitArgs (Some absolutePath)]
           in case gitGrepSettled (spawnProcess W ''git'' gitArgs (Some absolutePath)) of
                Resolved output \<Rightarrow>
                  (Inr (parseGrepOutput (paths W) (os_platform W) output absolutePath), tr2)
              | Rejected _ \<Rightarrow>
                  (let (res, tr3) = systemGrepStrategy W pattern absolutePath incl
                   in (res, tr2 @ tr3))
         else
           let (res, tr3) = systemGrepStrategy W pattern absolutePath incl
           in (res, tr1 @ tr3))"

section \<open>Analytics of one search\<close>

text \<open>\<open>xs.slice(start, fin)\<close>: a negative index counts from the end of the array.\<close>

definition js_slice :: "'a list \<Rightarrow> int \<Rightarrow> int \<Rightarrow> 'a list" where
  "js_slice xs start fin =
     (let len = int (length xs);
          k = (if start < 0 then max (len + start) 0 else min start len);
          final = (if fin < 0 then max (len + fin) 0 else min fin len)
      in take (nat (final - k)) (drop (nat k) xs))"

definition context_lines :: "string \<Rightarrow> int \<Rightarrow> string \<times> string" where
  "context_lines content lineNo =
     (let lines = js_split [CHR 0x0A] content;
          lineIndex = lineNo - 1
      in (js_join [CHR 0x0A] (js_slice lines (max 0 (lineIndex - 2)) lineIndex),
          js_join [CHR 0x0A]
            (js_slice lines (lineIndex + 1) (min (int (length lines)) (lineIndex + 3)))))"

definition file_details :: "world \<Rightarrow> string \<Rightarrow> int \<Rightarrow> (nat \<times> rat \<times> string \<times> string) \<times> io_event list" where
  "file_details W fullPath lineNo =
     (case fsStat W fullPath of
        Inl _ \<Rightarrow> ((0, 0, [], []), [Stat fullPath])
      | Inr (bytes, modified) \<Rightarrow>
          (case readFile W fullPath of
             Inl _ \<Rightarrow> ((bytes, modified, [], []), [Stat fullPath, ReadFile fullPath])
           | Inr content \<Rightarrow>
               ((bytes, modified, fst (context_lines content lineNo), snd (context_lines content lineNo)),
                [Stat fullPath, ReadFile fullPath])))"

definition createMatchAnalytics ::
    "world \<Rightarrow> GrepMatch \<Rightarrow> string \<Rightarrow> string \<Rightarrow> (string + MatchAnalytics) \<times> io_event list" where
  "createMatchAnalytics W match pattern searchPath =
     (let fullPath = path_resolve (paths W) searchPath (filePath match);
          ((bytes, modified, before, after), tr) = file_details W fullPath (lineNumber match);
          score = calculateRelevanceScore (paths W) match pattern
      in (case getMatchReason (RegExp W) (paths W) match pattern of
            Inl err \<Rightarrow> Inl err
          | Inr reason \<Rightarrow>
              Inr \<lparr>ma_filePath = filePath match, ma_lineNumber = Some (lineNumber match),
                   matchText = line match, contextBefore = Some before, contextAfter = Some after,
                   relevanceScore = Some score, matchReason = reason,
                   fileSize = bytes, fileLastModified = modified\<rparr>,
          tr))"

definition addSearchRankingFactors ::
    "world \<Rightarrow> TestBenchAnalytics \<Rightarrow> SearchSession \<Rightarrow> string \<Rightarrow> string option \<Rightarrow> nat \<Rightarrow> nat
     \<Rightarrow> TestBenchAnalytics" where
  "addSearchRankingFactors W tb sess pattern incl n_matches scanned =
     (if \<not> isActive sess then tb
      else
        let patternComplexity = calculatePatternComplexity pattern;
            tb = addRankingFactor tb sess
              \<lparr>factor = ''Pattern Complexity'', weight = 3 / 10, factor_value = patternComplexity,
               impact = patternComplexity * (3 / 10),
               explanation = ''Pattern '' @ dquote @ pattern @ dquote @ '' has ''
                 @ (if patternComplexity > 5 / 10 then ''high'' else ''low'')
                 @ '' complexity ('' @ toFixed W 2 patternComplexity @ '')''\<rparr>;
            scopeFactor = (if scanned > 100 then 1 else of_nat scanned / 100);
            tb = addRankingFactor tb sess
              \<lparr>factor = ''Search Scope'', weight = 2 / 10, factor_value = scopeFactor,
               impact = scopeFactor * (2 / 10),
               explanation = ''Searched '' @ show_nat scanned @ '' files (scope factor: ''
                 @ toFixed W 2 scopeFactor @ '')''\<rparr>;
            resultDensity = (if scanned > 0 then of_nat n_matches / of_nat scanned else 0);
            tb = addRankingFactor tb sess
              \<lparr>factor = ''Result Density'', weight = 4 / 10, factor_value = resultDensity,
               impact = resultDensity * (4 / 10),
               explanation = ''Found '' @ show_nat n_matches @ '' matches in ''
                 @ show_nat scanned @ '' files ('' @ toFixed W 2 (resultDensity * 100)
                 @ ''% hit rate)''\<rparr>
        in if truthy incl
           then addRankingFactor tb sess
              \<lparr>factor = ''File Filter'', weight = 1 / 10, factor_value = 1, impact = 1 / 10,
               explanation = ''Applied file filter: '' @ the incl\<rparr>
           else tb)"

fun record_matches ::
    "world \<Rightarrow> TestBenchAnalytics \<Rightarrow> SearchSession \<Rightarrow> string \<Rightarrow> string \<Rightarrow> GrepMatch list
     \<Rightarrow> string option \<times> TestBenchAnalytics \<times> io_event list" where
  "record_matches W tb sess pattern searchPath [] = (None, tb, [])"
| "record_matches W tb sess pattern searchPath (m # ms) =
     (case createMatchAnalytics W m pattern searchPath of
        (Inl err, tr) \<Rightarrow> (Some err, tb, tr)
      | (Inr details, tr) \<Rightarrow>
          (case record_matches W (addMatch tb sess details) sess pattern searchPath ms of
             (failure, tb', tr') \<Rightarrow> (failure, tb', tr @ tr')))"

definition counting_ignores :: "string list" where
  "counting_ignores = [''.git/**'', ''node_modules/**'', ''bower_components/**'']"

definition performGrepSearchWithAnalytics ::
    "world \<Rightarrow> TestBenchAnalytics \<Rightarrow> SearchSession \<Rightarrow> string \<Rightarrow> string \<Rightarrow> string option
     \<Rightarrow> (string + GrepMatch list) \<times> TestBenchAnalytics \<times> io_event list" where
  "performGrepSearchWithAnalytics W tb sess pattern searchPath incl =
     (case performGrepSearch W pattern searchPath incl of
        (Inl err, tr) \<Rightarrow> (Inl err, tb, tr)
      | (Inr matches, tr) \<Rightarrow>
          if isActive sess
          then
            let globPattern = (if truthy incl then the incl else ''**/*'');
                scanned = length (fst (globStream W globPattern searchPath counting_ignores False));
                tb1 = setFilesScanned tb sess scanned;
                tr1 = tr @ [GlobStream globPattern searchPath]
            in (case record_matches W tb1 sess pattern searchPath matches of
                  (Some err, tb2, tr2) \<Rightarrow> (Inl err, tb2, tr1 @ tr2)
                | (None, tb2, tr2) \<Rightarrow>
                    (Inr matches,
                     addSearchRankingFactors W tb2 sess pattern incl (length matches) scanned,
                     tr1 @ tr2))
          else (Inr matches, tb, tr))"

section \<open>The orchestrator\<close>

record ToolResult =
  llmContent :: string
  returnDisplay :: string

text \<open>
  The clock readings of one call of \<open>execute\<close>: \<open>Date.now()\<close> and \<open>performance.now()\<close>
  when the session starts, \<open>performance.now()\<close> when it completes.
\<close>

record clock =
  clock_date :: rat
  clock_start :: rat
  clock_end :: rat

fun search_directories ::
    "world \<Rightarrow> TestBenchAnalytics \<Rightarrow> SearchSession \<Rightarrow> string \<Rightarrow> string option \<Rightarrow> bool
     \<Rightarrow> string list \<Rightarrow> (string + GrepMatch list) \<times> TestBenchAnalytics \<times> io_event list" where
  "search_directories W tb sess pattern incl multi [] = (Inr [], tb, [])"
| "search_directories W tb sess pattern incl multi (searchDir # dirs) =
     (case performGrepSearchWithAnalytics W tb sess pattern searchDir incl of
        (Inl err, tb1, tr1) \<Rightarrow> (Inl err, tb1, tr1)
      | (Inr matches, tb1, tr1) \<Rightarrow>
          let prefixed =
                (if multi
                 then map (\<lambda>m. m\<lparr>filePath :=
                              path_join (paths W) (path_basename (paths W) searchDir) (filePath m)\<rparr>)
                        matches
                 else matches)
          in (case search_directories W tb1 sess pattern incl multi dirs of
                (Inl err, tb2, tr2) \<Rightarrow> (Inl err, tb2, tr1 @ tr2)
              | (Inr others, tb2, tr2) \<Rightarrow> (Inr (prefixed @ others), tb2, tr1 @ tr2)))"

text \<open>
  Grouping by file uses a plain object as accumulator. Its own properties are an
  association list in creation order. A key that \<open>Object.prototype\<close> already has is
  found there, so no array is created for it and the \<open>push\<close> throws a type error.
\<close>

definition object_prototype_keys :: "string list" where
  "object_prototype_keys =
     [''constructor'', ''__defineGetter__'', ''__defineSetter__'', ''hasOwnProperty'',
      ''__lookupGetter__'', ''__lookupSetter__'', ''isPrototypeOf'', ''propertyIsEnumerable'',
      ''toString'', ''valueOf'', ''__proto__'', ''toLocaleString'']"

definition group_push ::
    "(string \<times> GrepMatch list) list \<Rightarrow> GrepMatch \<Rightarrow> string + (string \<times> GrepMatch list) list" where
  "group_push acc m =
     (let fileKey = filePath m
      in case map_of acc fileKey of
           Some ms \<Rightarrow>
             Inr (map (\<lambda>(k, v). if k = fileKey then (k, sort_key lineNumber (ms @ [m])) else (k, v)) acc)
         | None \<Rightarrow>
             if fileKey \<in> set object_prototype_keys
             then Inl ''acc[fileKey].push is not a function''
             else Inr (acc @ [(fileKey, sort_key lineNumber [m])]))"

fun matchesByFile ::
    "(string \<times> GrepMatch list) list \<Rightarrow> GrepMatch list \<Rightarrow> string + (string \<times> GrepMatch list) list" where
  "matchesByFile acc [] = Inr acc"
| "matchesByFile acc (m # ms) =
     (case group_push acc m of Inl err \<Rightarrow> Inl err | Inr acc' \<Rightarrow> matchesByFile acc' ms)"

text \<open>
  \<open>for (const filePath in matchesByFile)\<close> visits the keys that are array indices first,
  in ascending numeric order, then the other keys in creation order.
\<close>

definition is_array_index :: "string \<Rightarrow> bool" where
  "is_array_index k =
     (k \<noteq> [] \<and> list_all is_digit k \<and> (k = ''0'' \<or> hd k \<noteq> CHR ''0'')
      \<and> digits_value k < 2 ^ 32 - 1)"

definition for_in_order :: "(string \<times> 'a) list \<Rightarrow> (string \<times> 'a) list" where
  "for_in_order acc =
     sort_key (\<lambda>(k, v). digits_value k) (filter (\<lambda>(k, v). is_array_index k) acc)
     @ filter (\<lambda>(k, v). \<not> is_array_index k) acc"

definition render_match :: "GrepMatch \<Rightarrow> string" where
  "render_match m = ''L'' @ show_int (lineNumber m) @ '': '' @ trim (line m) @ [CHR 0x0A]"

definition render_file :: "string \<times> GrepMatch list \<Rightarrow> string" where
  "render_file g =
     ''File: '' @ fst g @ [CHR 0x0A] @ concat (map render_match (snd g)) @ ''---'' @ [CHR 0x0A]"

definition searchLocationDescription :: "world \<Rightarrow> GrepToolParams \<Rightarrow> string option \<Rightarrow> string" where
  "searchLocationDescription W params searchDirAbs =
     (case searchDirAbs of
        None \<Rightarrow>
          if length (workspaceDirectories W) > 1
          then ''across '' @ show_nat (length (workspaceDirectories W)) @ '' workspace directories''
          else ''in the workspace directory''
      | Some _ \<Rightarrow>
          ''in path '' @ dquote
          @ (if truthy (param_path params) then the (param_path params) else ''.'') @ dquote)"

definition filter_note :: "GrepToolParams \<Rightarrow> string" where
  "filter_note params =
     (if truthy (param_include params)
      then '' (filter: '' @ dquote @ the (param_include params) @ dquote @ '')'' else [])"

definition render_result :: "world \<Rightarrow> GrepToolParams \<Rightarrow> string option \<Rightarrow> GrepMatch list \<Rightarrow> string + ToolResult" where
  "render_result W params searchDirAbs allMatches =
     (if allMatches = []
      then Inr \<lparr>llmContent = ''No matches found for pattern '' @ dquote @ param_pattern params
                   @ dquote @ '' '' @ searchLocationDescription W params searchDirAbs
                   @ filter_note params @ ''.'',
                returnDisplay = ''No matches found''\<rparr>
      else
        case matchesByFile [] allMatches of
          Inl err \<Rightarrow> Inl err
        | Inr groups \<Rightarrow>
            let matchCount = length allMatches;
                matchTerm = (if matchCount = 1 then ''match'' else ''matches'');
                header = ''Found '' @ show_nat matchCount @ '' '' @ matchTerm @ '' for pattern ''
                   @ dquote @ param_pattern params @ dquote @ '' ''
                   @ searchLocationDescription W params searchDirAbs @ filter_note params
                   @ '':'' @ [CHR 0x0A] @ ''---'' @ [CHR 0x0A]
            in Inr \<lparr>llmContent = trim (header @ concat (map render_file (for_in_order groups))),
                     returnDisplay = ''Found '' @ show_nat matchCount @ '' '' @ matchTerm\<rparr>)"

text \<open>The body of the \<open>try\<close> block of \<open>execute\<close>; \<open>Inl\<close> is a caught exception.\<close>

definition search_body ::
    "world \<Rightarrow> TestBenchAnalytics \<Rightarrow> SearchSession \<Rightarrow> GrepToolParams
     \<Rightarrow> (string + ToolResult) \<times> TestBenchAnalytics \<times> io_event list" where
  "search_body W tb sess params =
     (case resolveAndValidatePath W (param_path params) of
        (Inl err, tr) \<Rightarrow> (Inl err, tb, tr)
      | (Inr searchDirAbs, tr) \<Rightarrow>
          let searchDirectories =
                (case searchDirAbs of None \<Rightarrow> workspaceDirectories W | Some d \<Rightarrow> [d])
          in (case search_directories W tb sess (param_pattern params) (param_include params)
                     (length searchDirectories > 1) searchDirectories of
                (Inl err, tb1, tr1) \<Rightarrow> (Inl err, tb1, tr @ tr1)
              | (Inr allMatches, tb1, tr1) \<Rightarrow>
                  (render_result W params searchDirAbs allMatches, tb1, tr @ tr1)))"

definition execute ::
    "world \<Rightarrow> clock \<Rightarrow> TestBenchAnalytics \<Rightarrow> GrepToolParams
     \<Rightarrow> ToolResult \<times> TestBenchAnalytics \<times> io_event list" where
  "execute W clk tb params =
     (let (tb1, session) =
            startSearch tb (clock_date clk) (clock_start clk) (param_pattern params) KindGrep
              (if truthy (param_path params) then the (param_path params) else ''.'');
          tb2 = setPattern tb1 session (param_pattern params);
          (validationError, tr0) = validateToolParams W params
      in if truthy validationError
         then (\<lparr>llmContent = ''Error: Invalid parameters provided. Reason: '' @ the validationError,
                 returnDisplay = ''Model provided invalid parameters. Error: '' @ the validationError\<rparr>,
               fst (complete tb2 session (clock_end clk)), tr0)
         else
           (case search_body W tb2 session params of
              (Inr result, tb3, tr1) \<Rightarrow>
                (result, fst (complete tb3 session (clock_end clk)), tr0 @ tr1)
            | (Inl errorMessage, tb3, tr1) \<Rightarrow>
                (\<lparr>llmContent = ''Error during grep search operation: '' @ errorMessage,
                  returnDisplay = ''Error: '' @ errorMessage\<rparr>,
                 fst (complete tb3 session (clock_end clk)), tr0 @ tr1)))"

section \<open>A small world for examples\<close>

text \<open>
  The examples below run the model in a small world. Its path functions are right for
  POSIX paths without \<open>.\<close> and \<open>..\<close> segments and without trailing slashes. Its
  regular expressions are right for patterns without metacharacters (a case-insensitive
  substring test), and it rejects the pattern \<open>(\<close>. The workspace is \<open>/ws\<close>, with
  the files \<open>/ws/a.txt\<close> and \<open>/ws/b.txt\<close>; the results of the \<open>git\<close> and \<open>grep\<close>
  child processes are parameters.
\<close>

definition sample_basename :: "string \<Rightarrow> string" where
  "sample_basename a = rev (takeWhile (\<lambda>c. c \<noteq> CHR ''/'') (rev a))"

definition sample_paths :: path_module where
  "sample_paths =
     \<lparr>path_resolve = (\<lambda>b p. if prefix ''/'' p then p else b @ ''/'' @ p),
      path_relative = (\<lambda>b a. if prefix (b @ ''/'') a then drop (length b + 1) a else a),
      path_basename = sample_basename,
      path_extname = (\<lambda>a. if CHR ''.'' \<in> set (tl (sample_basename a))
                           then ''.'' @ rev (takeWhile (\<lambda>c. c \<noteq> CHR ''.'') (rev a)) else []),
      path_join = (\<lambda>a b. a @ ''/'' @ b)\<rparr>"

definition sample_RegExp :: regexp_engine where
  "sample_RegExp p =
     (if p = ''('' then Inl ''Invalid regular expression: /(/: Unterminated group''
      else Inr (\<lambda>l. js_includes (toLowerCase l) (toLowerCase p)))"

definition sample_world :: "proc_result \<Rightarrow> proc_result \<Rightarrow> world" where
  "sample_world git_result grep_result =
     \<lparr>os_platform = Posix,
      paths = sample_paths,
      RegExp = sample_RegExp,
      toFixed = (\<lambda>digits x. []),
      schemaErrors = (\<lambda>params. None),
      targetDir = ''/ws'',
      workspaceDirectories = [''/ws''],
      isPathWithinWorkspace = (\<lambda>p. prefix ''/ws'' p),
      statSync = (\<lambda>p. if p = ''/ws'' then IsDirectory
                       else if p = ''/ws/a.txt'' then NotDirectory
                       else StatFails ''ENOENT'' ''Error: ENOENT: no such file or directory''),
      isGitRepository = (\<lambda>p. True),
      spawnProcess = (\<lambda>command args cwd.
                        if command = ''git'' then git_result
                        else if command = ''grep'' then grep_result
                        else Closed (Some 0) [] []),
      globStream = (\<lambda>globPattern cwd ignore with_signal. ([''/ws/a.txt'', ''/ws/b.txt''], None)),
      readFile = (\<lambda>p. if p = ''/ws/a.txt''
                       then Inr (''first'' @ [CHR 0x0A] @ ''second'' @ [CHR 0x0A] @ ''// TODO fix'')
                       else if p = ''/ws/b.txt'' then Inr ''nothing here''
                       else Inl ''ENOENT''),
      fsStat = (\<lambda>p. if p = ''/ws/a.txt'' then Inr (24, 1000)
                     else if p = ''/ws/b.txt'' then Inr (12, 2000)
                     else Inl ''ENOENT'')\<rparr>"

definition sample_clock :: clock where
  "sample_clock = \<lparr>clock_date = 1000, clock_start = 5, clock_end = 12\<rparr>"

definition sample_bench :: "bool \<Rightarrow> TestBenchAnalytics" where
  "sample_bench enabled = \<lparr>heap = [], searchHistory = [], analyticsEnabled = enabled\<rparr>"

text \<open>A session of the small world that is completed once, and then a second time.\<close>

definition sample_started :: "TestBenchAnalytics \<times> SearchSession" where
  "sample_started = startSearch (sample_bench True) 1000 5 ''TODO'' KindGrep ''.''"

definition completed_once :: TestBenchAnalytics where
  "completed_once = fst (complete (fst sample_started) (snd sample_started) 12)"

definition completed_twice :: TestBenchAnalytics where
  "completed_twice = fst (complete completed_once (snd sample_started) 20)"

section \<open>Invariants used in the proofs\<close>

text \<open>
  The invariant of the grouping loop: every group is in ascending order of line number and
  holds matches of its own file only.
\<close>

definition groups_sorted :: "(string \<times> GrepMatch list) list \<Rightarrow> bool" where
  "groups_sorted acc = list_all (\<lambda>g. sorted (map lineNumber (snd g)) \<and> list_all (\<lambda>m. filePath m = fst g) (snd g)) acc"

text \<open>
  What the operations of a session keep of the telemetry state: the history, the number
  of objects in the heap, and whether analytics are enabled.
\<close>

definition same_shape :: "TestBenchAnalytics \<Rightarrow> TestBenchAnalytics \<Rightarrow> bool" where
  "same_shape tb tb' =
     (searchHistory tb' = searchHistory tb \<and> length (heap tb') = length (heap tb)
      \<and> analyticsEnabled tb' = analyticsEnabled tb)"

section \<open>Properties of the output parser\<close>

lemma index_at_single:
  "index_at [c] s k = (if c \<in> set s then int (k + length (takeWhile (\<lambda>d. d \<noteq> c) s)) else - 1)"
  by (induction s arbitrary: k) auto

lemma not_colon_eq: "not_colon = (\<lambda>d. d \<noteq> CHR '':'')"
  by (rule ext) (simp add: not_colon_def)

lemma trim_blank_no_colon:
  assumes "trim s = []" shows "CHR '':'' \<notin> set s"
proof -
  from assms have "dropWhile js_whitespace (rev (dropWhile js_whitespace s)) = []"
    by (simp add: trim_def)
  then have all: "\<forall>c \<in> set (dropWhile js_whitespace s). js_whitespace c"
    by (simp add: dropWhile_eq_Nil_conv)
  have "dropWhile js_whitespace s = []"
  proof (rule ccontr)
    assume ne: "dropWhile js_whitespace s \<noteq> []"
    then have "\<not> js_whitespace (hd (dropWhile js_whitespace s))" by (rule hd_dropWhile)
    moreover from ne have "hd (dropWhile js_whitespace s) \<in> set (dropWhile js_whitespace s)" by simp
    ultimately show False using all by blast
  qed
  then have "\<forall>c \<in> set s. js_whitespace c"
    by (simp add: dropWhile_eq_Nil_conv)
  moreover have "\<not> js_whitespace CHR '':''" by (simp add: js_whitespace_def)
  ultimately show ?thesis by blast
qed

lemma dropWhile_not_colon_Cons:
  assumes "CHR '':'' \<in> set s"
  shows "dropWhile not_colon s = CHR '':'' # drop (Suc (length (takeWhile not_colon s))) s"
    and "length (takeWhile not_colon s) < length s"
proof -
  from assms have ne: "dropWhile not_colon s \<noteq> []"
    by (auto simp: dropWhile_eq_Nil_conv not_colon_def)
  then have "\<not> not_colon (hd (dropWhile not_colon s))" by (rule hd_dropWhile)
  then have hd: "hd (dropWhile not_colon s) = CHR '':''" by (simp add: not_colon_def)
  have "dropWhile not_colon s = drop (length (takeWhile not_colon s)) s"
    by (rule dropWhile_eq_drop)
  moreover from ne hd have "dropWhile not_colon s = CHR '':'' # tl (dropWhile not_colon s)"
    by (cases "dropWhile not_colon s") auto
  ultimately show "dropWhile not_colon s = CHR '':'' # drop (Suc (length (takeWhile not_colon s))) s"
    by (simp add: drop_Suc drop_tl)
  from ne show "length (takeWhile not_colon s) < length s"
    by (metis length_takeWhile_le dropWhile_eq_drop drop_eq_Nil le_neq_implies_less order_refl)
qed

lemma parseGrepLine_eq:
  "parseGrepLine P base lin results =
     (case grep_line_match P base lin of None \<Rightarrow> results | Some m \<Rightarrow> results @ [m])"
proof (cases "CHR '':'' \<in> set lin")
  case False
  then have "indexOf lin '':'' 0 = - 1"
    by (simp add: indexOf_def index_at_single)
  moreover from False have dn: "dropWhile not_colon lin = []"
    by (auto simp: dropWhile_eq_Nil_conv not_colon_def)
  have "grep_line_fields lin = None"
    unfolding grep_line_fields_def dn by simp
  ultimately show ?thesis
    by (simp add: parseGrepLine_def grep_line_match_def)
next
  case True
  define i where "i = length (takeWhile not_colon lin)"
  define rest where "rest = drop (Suc i) lin"
  from True have nb: "trim lin \<noteq> []" using trim_blank_no_colon by blast
  from True have dw: "dropWhile not_colon lin = CHR '':'' # rest" and ilt: "i < length lin"
    using dropWhile_not_colon_Cons[OF True] by (simp_all add: i_def rest_def)
  from True have first: "indexOf lin '':'' 0 = int i"
    by (simp add: indexOf_def index_at_single i_def not_colon_eq)
  have second: "indexOf lin '':'' (nat (int i + 1)) =
      (if CHR '':'' \<in> set rest then int (Suc i + length (takeWhile not_colon rest)) else - 1)"
    using ilt by (simp add: indexOf_def index_at_single rest_def not_colon_eq nat_add_distrib min_def Suc_le_eq)
  have raw: "substring lin 0 i = takeWhile not_colon lin"
    using ilt by (simp add: substring_def i_def min_def) (metis takeWhile_eq_take i_def)
  show ?thesis
  proof (cases "CHR '':'' \<in> set rest")
    case False
    then have dn: "dropWhile not_colon rest = []"
      by (auto simp: dropWhile_eq_Nil_conv not_colon_def)
    have "grep_line_fields lin = None"
      by (simp add: grep_line_fields_def dw dn)
    with False nb first second show ?thesis
      by (simp add: parseGrepLine_def grep_line_match_def)
  next
    case True
    define k where "k = length (takeWhile not_colon rest)"
    define content where "content = drop (Suc k) rest"
    from True have dw2: "dropWhile not_colon rest = CHR '':'' # content" and klt: "k < length rest"
      using dropWhile_not_colon_Cons[OF True] by (simp_all add: k_def content_def)
    from klt have jlt: "Suc i + k < length lin" by (simp add: rest_def)
    have num: "substring lin (Suc i) (Suc (i + k)) = takeWhile not_colon rest"
    proof -
      have "substring lin (Suc i) (Suc (i + k)) = take k rest"
        using jlt by (simp add: substring_def rest_def min_def)
      also have "\<dots> = takeWhile not_colon rest"
        unfolding k_def by (rule takeWhile_eq_take[symmetric])
      finally show ?thesis .
    qed
    have cont: "substring_from lin (Suc (Suc (i + k))) = content"
      using jlt by (simp add: substring_from_def content_def rest_def min_def add.commute)
    from True second have second': "indexOf lin '':'' (Suc i) = int (Suc (i + k))"
      by (simp add: k_def nat_add_distrib)
    have n2: "nat (int (Suc (i + k)) + 1) = Suc (Suc (i + k))" by simp
    have fields: "grep_line_fields lin = Some (takeWhile not_colon lin, takeWhile not_colon rest, content)"
      by (simp add: grep_line_fields_def dw dw2)
    have body: "parseGrepLine P base lin results =
        (case js_parseInt (takeWhile not_colon rest) of
           None \<Rightarrow> results
         | Some n \<Rightarrow> results @ [\<lparr>filePath = relative_or_basename P base (takeWhile not_colon lin),
                                      lineNumber = n, line = content\<rparr>])"
      unfolding parseGrepLine_def using nb
      by (simp only: first Let_def nat_int if_False second' n2 raw num cont relative_or_basename_def
            nat_add_distrib[of "int i" 1, simplified] split: option.splits) 
         (simp add: second' raw num cont n2 split: option.splits)
    show ?thesis
      unfolding body grep_line_match_def fields by (simp split: option.splits)
  qed
qed

lemma foldl_parseGrepLine:
  "foldl (\<lambda>results lin. parseGrepLine P base lin results) acc ls
     = acc @ List.map_filter (grep_line_match P base) ls"
  by (induction ls arbitrary: acc)
     (simp_all add: parseGrepLine_eq List.map_filter_simps split: option.splits)

lemma parseGrepOutput_map_filter:
  "parseGrepOutput P plat output base =
     List.map_filter (grep_line_match P base) (if output = [] then [] else js_split (EOL plat) output)"
  by (simp add: parseGrepOutput_def foldl_parseGrepLine List.map_filter_simps)

lemma split_single_line:
  "CHR 0x0A \<notin> set s \<Longrightarrow> split_from (EOL plat) cur s = [rev cur @ s]"
  by (induction s arbitrary: cur) (auto simp: EOL_def prefix_def split: platform.splits)



lemma js_split_single_line:
  "CHR 0x0A \<notin> set s \<Longrightarrow> js_split (EOL plat) s = [s]"
  using split_single_line[of s plat "[]"] by (simp add: js_split_def EOL_def split: platform.splits)

lemma parseGrepOutput_single_line:
  "CHR 0x0A \<notin> set s \<Longrightarrow> s \<noteq> [] \<Longrightarrow>
   parseGrepOutput P plat s base = (case grep_line_match P base s of None \<Rightarrow> [] | Some m \<Rightarrow> [m])"
  by (simp add: parseGrepOutput_map_filter js_split_single_line List.map_filter_simps split: option.splits)

lemma count_colons_takeWhile: "filter (\<lambda>c. c = CHR '':'') (takeWhile not_colon s) = []"
  by (induction s) (auto simp: not_colon_def)

lemma not_colon_free: "(\<forall>x \<in> set s. not_colon x) \<longleftrightarrow> CHR '':'' \<notin> set s"
  by (auto simp: not_colon_def)

lemma colon_count_zero: "length (filter (\<lambda>c. c = CHR '':'') s) = 0 \<longleftrightarrow> CHR '':'' \<notin> set s"
  by (induction s) auto

lemma colon_count_split:
  "length (filter (\<lambda>c. c = CHR '':'') s) =
     (case dropWhile not_colon s of [] \<Rightarrow> 0
      | _ # rest \<Rightarrow> Suc (length (filter (\<lambda>c. c = CHR '':'') rest)))"
  by (induction s) (auto simp: not_colon_def split: list.splits)

lemma grep_line_fields_None_iff:
  "grep_line_fields lin = None \<longleftrightarrow> length (filter (\<lambda>c. c = CHR '':'') lin) < 2"
proof (cases "dropWhile not_colon lin")
  case Nil
  show ?thesis
    unfolding grep_line_fields_def colon_count_split[of lin] Nil by simp
next
  case outer: (Cons x rest)
  show ?thesis
  proof (cases "dropWhile not_colon rest")
    case Nil
    show ?thesis
      unfolding grep_line_fields_def colon_count_split[of lin] outer list.case
        colon_count_split[of rest] Nil by simp
  next
    case (Cons y content)
    show ?thesis
      unfolding grep_line_fields_def colon_count_split[of lin] outer list.case
        colon_count_split[of rest] Cons by simp
  qed
qed

lemma dropWhile_not_colon_hd: "dropWhile not_colon s = x # r \<Longrightarrow> x = CHR '':''"
  using hd_dropWhile[of not_colon s] by (simp add: not_colon_def)

lemma split_at_colon:
  assumes "CHR '':'' \<notin> set p"
  shows "takeWhile not_colon (p @ CHR '':'' # r) = p" and "dropWhile not_colon (p @ CHR '':'' # r) = CHR '':'' # r"
  using assms by (induction p) (auto simp: not_colon_def)

lemma grep_line_fields_Some_iff:
  "grep_line_fields lin = Some (p, n, c) \<longleftrightarrow>
     (lin = p @ '':'' @ n @ '':'' @ c \<and> CHR '':'' \<notin> set p \<and> CHR '':'' \<notin> set n)"
proof
  assume some: "grep_line_fields lin = Some (p, n, c)"
  then obtain x rest where dw: "dropWhile not_colon lin = x # rest"
    by (cases "dropWhile not_colon lin") (auto simp: grep_line_fields_def)
  with some obtain y where dw2: "dropWhile not_colon rest = y # c"
    and p: "p = takeWhile not_colon lin" and n: "n = takeWhile not_colon rest"
    by (cases "dropWhile not_colon rest") (auto simp: grep_line_fields_def)
  have x: "x = CHR '':''" and y: "y = CHR '':''"
    using dw dw2 by (auto dest: dropWhile_not_colon_hd)
  have "lin = takeWhile not_colon lin @ dropWhile not_colon lin" by simp
  also have "\<dots> = p @ CHR '':'' # rest" by (simp only: dw x p)
  finally have l1: "lin = p @ CHR '':'' # rest" .
  have "rest = takeWhile not_colon rest @ dropWhile not_colon rest" by simp
  also have "\<dots> = n @ CHR '':'' # c" by (simp only: dw2 y n)
  finally have l2: "rest = n @ CHR '':'' # c" .
  have "CHR '':'' \<notin> set p" "CHR '':'' \<notin> set n"
    unfolding p n by (auto dest: set_takeWhileD simp: not_colon_def)
  with l1 l2 show "lin = p @ '':'' @ n @ '':'' @ c \<and> CHR '':'' \<notin> set p \<and> CHR '':'' \<notin> set n"
    by simp
next
  assume r: "lin = p @ '':'' @ n @ '':'' @ c \<and> CHR '':'' \<notin> set p \<and> CHR '':'' \<notin> set n"
  then have lin: "lin = p @ CHR '':'' # (n @ CHR '':'' # c)" by simp
  show "grep_line_fields lin = Some (p, n, c)"
    unfolding grep_line_fields_def lin using r
    by (simp add: split_at_colon)
qed

lemma blank_line_no_fields: "trim lin = [] \<Longrightarrow> grep_line_fields lin = None"
  using trim_blank_no_colon[of lin] by (simp add: grep_line_fields_None_iff flip: colon_count_zero)

text \<open>
  C6. The parser cuts the raw output at the platform's line terminator. A line yields a
  match only through its fields: it is cut at its first colon and at the first colon
  after that, and a line with fewer than two colons (a blank line among them) has no
  fields and yields nothing. The text before the first colon is the path, resolved
  against the search root, expressed relative to it, and replaced by the base name of the
  file when that relative path is empty; the text after the second colon is the line
  content. Matches keep the order of the lines.
\<close>

theorem parseGrepOutput_fields:
  "parseGrepOutput P plat output basePath =
     List.map_filter
       (\<lambda>lin. case grep_line_fields lin of
                None \<Rightarrow> None
              | Some (p, n, c) \<Rightarrow>
                  map_option
                    (\<lambda>k. \<lparr>filePath =
                            (if path_relative P basePath (path_resolve P basePath p) = []
                             then path_basename P (path_resolve P basePath p)
                             else path_relative P basePath (path_resolve P basePath p)),
                          lineNumber = k, line = c\<rparr>)
                    (js_parseInt n))
       (if output = [] then [] else js_split (EOL plat) output)
   \<and> (grep_line_fields lin = None \<longleftrightarrow> length (filter (\<lambda>c. c = CHR '':'') lin) < 2)
   \<and> (\<forall>p n c. grep_line_fields lin = Some (p, n, c) \<longleftrightarrow>
        (lin = p @ '':'' @ n @ '':'' @ c \<and> CHR '':'' \<notin> set p \<and> CHR '':'' \<notin> set n))
   \<and> (trim lin = [] \<longrightarrow> grep_line_fields lin = None)"
proof -
  have "grep_line_match P basePath =
      (\<lambda>lin. case grep_line_fields lin of
                None \<Rightarrow> None
              | Some (p, n, c) \<Rightarrow>
                  map_option
                    (\<lambda>k. \<lparr>filePath =
                            (if path_relative P basePath (path_resolve P basePath p) = []
                             then path_basename P (path_resolve P basePath p)
                             else path_relative P basePath (path_resolve P basePath p)),
                          lineNumber = k, line = c\<rparr>)
                    (js_parseInt n))"
    by (rule ext) (simp add: grep_line_match_def relative_or_basename_def Let_def split: option.splits)
  then show ?thesis
    using parseGrepOutput_map_filter[of P plat "output" basePath]
      grep_line_fields_None_iff[of lin] grep_line_fields_Some_iff[of lin] blank_line_no_fields[of lin]
    by simp
qed

theorem parseGrepOutput_fields_witness:
  "trim [CHR '' '', CHR 0x09] = []
   \<and> grep_line_fields [CHR '' '', CHR 0x09] = None
   \<and> grep_line_fields ''a.txt:3:// TODO: fix'' = Some (''a.txt'', ''3'', ''// TODO: fix'')
   \<and> parseGrepOutput sample_paths Posix
         (''a.txt:3:// TODO: fix'' @ [CHR 0x0A] @ ''Binary file b.bin matches'' @ [CHR 0x0A]) ''/ws''
       = [\<lparr>filePath = ''a.txt'', lineNumber = 3, line = ''// TODO: fix''\<rparr>]"
proof -
  let ?out = "''a.txt:3:// TODO: fix'' @ [CHR 0x0A] @ ''Binary file b.bin matches'' @ [CHR 0x0A]"
  note inst = parseGrepOutput_fields[of sample_paths Posix ?out "''/ws''" "[CHR '' '', CHR 0x09]"]
  have blank: "trim [CHR '' '', CHR 0x09] = []"
    by (simp add: trim_def js_whitespace_def)
  from inst blank have none: "grep_line_fields [CHR '' '', CHR 0x09] = None"
    by simp
  have some: "grep_line_fields ''a.txt:3:// TODO: fix'' = Some (''a.txt'', ''3'', ''// TODO: fix'')"
    by (simp add: grep_line_fields_def not_colon_def)
  have lines: "js_split (EOL Posix) ?out = [''a.txt:3:// TODO: fix'', ''Binary file b.bin matches'', []]"
    by code_simp
  have no_fields: "grep_line_fields ''Binary file b.bin matches'' = None" "grep_line_fields [] = None"
    by (simp_all add: grep_line_fields_def not_colon_def)
  have three: "js_parseInt ''3'' = Some 3"
    by (simp add: js_parseInt_def js_whitespace_def is_digit_def digits_value_def digit_value_def)
  have rel: "path_relative sample_paths ''/ws'' (path_resolve sample_paths ''/ws'' ''a.txt'') = ''a.txt''"
    by (simp add: sample_paths_def)
  from inst have "parseGrepOutput sample_paths Posix ?out ''/ws''
       = [\<lparr>filePath = ''a.txt'', lineNumber = 3, line = ''// TODO: fix''\<rparr>]"
    unfolding lines by (simp add: List.map_filter_simps some no_fields three rel)
  with blank none some show ?thesis by simp
qed

text \<open>
  C10. A match comes only from a line with two colons whose text between them has a
  leading integer for \<open>parseInt\<close>. With \<open>NaN\<close> the loop body leaves the results as they
  are, and nothing is raised: \<open>file.txt:abc:content\<close> gives no match. Digits followed by
  other text are read up to that text: \<open>file.txt:12abc:content\<close> gives a match on line 12.
\<close>

theorem parseGrepOutput_line_number:
  "(m \<in> set (parseGrepOutput P plat output basePath) \<longrightarrow>
      (\<exists>lin p n c. lin \<in> set (js_split (EOL plat) output)
         \<and> grep_line_fields lin = Some (p, n, c)
         \<and> js_parseInt n = Some (lineNumber m) \<and> line m = c))
   \<and> (grep_line_fields lin = Some (p, n, c) \<longrightarrow> js_parseInt n = None \<longrightarrow>
        parseGrepLine P basePath lin results = results)
   \<and> (grep_line_fields lin = Some (p, n, c) \<longrightarrow> js_parseInt n = Some k \<longrightarrow>
        parseGrepLine P basePath lin results =
          results @ [\<lparr>filePath = relative_or_basename P basePath p, lineNumber = k, line = c\<rparr>])
   \<and> js_parseInt ''abc'' = None
   \<and> js_parseInt ''12abc'' = Some 12
   \<and> parseGrepOutput P plat ''file.txt:abc:content'' basePath = []
   \<and> parseGrepOutput P plat ''file.txt:12abc:content'' basePath =
        [\<lparr>filePath = relative_or_basename P basePath ''file.txt'', lineNumber = 12,
          line = ''content''\<rparr>]"
proof -
  have a: "m \<in> set (parseGrepOutput P plat output basePath) \<longrightarrow>
      (\<exists>lin p n c. lin \<in> set (js_split (EOL plat) output)
         \<and> grep_line_fields lin = Some (p, n, c)
         \<and> js_parseInt n = Some (lineNumber m) \<and> line m = c)"
  proof
    assume "m \<in> set (parseGrepOutput P plat output basePath)"
    then obtain lin where lin: "lin \<in> set (js_split (EOL plat) output)"
      and gm: "grep_line_match P basePath lin = Some m"
      by (auto simp: parseGrepOutput_map_filter List.map_filter_def split: if_splits)
    from gm obtain p n c where f: "grep_line_fields lin = Some (p, n, c)"
      by (cases "grep_line_fields lin") (auto simp: grep_line_match_def)
    with gm have "js_parseInt n = Some (lineNumber m)" "line m = c"
      by (auto simp: grep_line_match_def)
    with lin f show "\<exists>lin p n c. lin \<in> set (js_split (EOL plat) output)
         \<and> grep_line_fields lin = Some (p, n, c)
         \<and> js_parseInt n = Some (lineNumber m) \<and> line m = c"
      by blast
  qed
  have b: "grep_line_fields lin = Some (p, n, c) \<longrightarrow> js_parseInt n = None \<longrightarrow>
        parseGrepLine P basePath lin results = results"
    by (simp add: parseGrepLine_eq grep_line_match_def)
  have c: "grep_line_fields lin = Some (p, n, c) \<longrightarrow> js_parseInt n = Some k \<longrightarrow>
        parseGrepLine P basePath lin results =
          results @ [\<lparr>filePath = relative_or_basename P basePath p, lineNumber = k, line = c\<rparr>]"
    by (simp add: parseGrepLine_eq grep_line_match_def)
  have f1: "grep_line_fields ''file.txt:abc:content'' = Some (''file.txt'', ''abc'', ''content'')"
    by (simp add: grep_line_fields_def not_colon_def)
  have f2: "grep_line_fields ''file.txt:12abc:content'' = Some (''file.txt'', ''12abc'', ''content'')"
    by (simp add: grep_line_fields_def not_colon_def)
  have p1: "js_parseInt ''abc'' = None"
    by (simp add: js_parseInt_def js_whitespace_def is_digit_def)
  have p2: "js_parseInt ''12abc'' = Some 12"
    by (simp add: js_parseInt_def js_whitespace_def is_digit_def digits_value_def digit_value_def)
  have d: "parseGrepOutput P plat ''file.txt:abc:content'' basePath = []"
    by (simp add: parseGrepOutput_single_line grep_line_match_def f1 p1)
  have e: "parseGrepOutput P plat ''file.txt:12abc:content'' basePath =
        [\<lparr>filePath = relative_or_basename P basePath ''file.txt'', lineNumber = 12,
          line = ''content''\<rparr>]"
    by (simp add: parseGrepOutput_single_line grep_line_match_def f2 p2)
  from a b c p1 p2 d e show ?thesis by (intro conjI)
qed

theorem parseGrepOutput_line_number_witness:
  "\<lparr>filePath = ''file.txt'', lineNumber = 12, line = ''content''\<rparr>
      \<in> set (parseGrepOutput sample_paths Posix ''file.txt:12abc:content'' ''/ws'')
   \<and> (\<exists>lin p n c. lin \<in> set (js_split (EOL Posix) ''file.txt:12abc:content'')
         \<and> grep_line_fields lin = Some (p, n, c) \<and> js_parseInt n = Some 12 \<and> c = ''content'')
   \<and> grep_line_fields ''file.txt:abc:content'' = Some (''file.txt'', ''abc'', ''content'')
   \<and> js_parseInt ''abc'' = None
   \<and> parseGrepLine sample_paths ''/ws'' ''file.txt:abc:content'' [] = []
   \<and> grep_line_fields ''file.txt:12abc:content'' = Some (''file.txt'', ''12abc'', ''content'')
   \<and> js_parseInt ''12abc'' = Some 12
   \<and> parseGrepLine sample_paths ''/ws'' ''file.txt:12abc:content'' [] =
        [\<lparr>filePath = ''file.txt'', lineNumber = 12, line = ''content''\<rparr>]"
proof -
  let ?m = "\<lparr>filePath = ''file.txt'', lineNumber = 12, line = ''content''\<rparr>"
  note t1 = parseGrepOutput_line_number[of ?m sample_paths Posix "''file.txt:12abc:content''" "''/ws''"
      "''file.txt:abc:content''" "''file.txt''" "''abc''" "''content''" "[]" 12]
  note t2 = parseGrepOutput_line_number[of ?m sample_paths Posix "''file.txt:12abc:content''" "''/ws''"
      "''file.txt:12abc:content''" "''file.txt''" "''12abc''" "''content''" "[]" 12]
  have rb: "relative_or_basename sample_paths ''/ws'' ''file.txt'' = ''file.txt''"
    by (simp add: relative_or_basename_def sample_paths_def)
  have f1: "grep_line_fields ''file.txt:abc:content'' = Some (''file.txt'', ''abc'', ''content'')"
    by (simp add: grep_line_fields_def not_colon_def)
  have f2: "grep_line_fields ''file.txt:12abc:content'' = Some (''file.txt'', ''12abc'', ''content'')"
    by (simp add: grep_line_fields_def not_colon_def)
  from t1 have mem: "?m \<in> set (parseGrepOutput sample_paths Posix ''file.txt:12abc:content'' ''/ws'')"
    by (simp add: rb)
  with t1 have ex: "\<exists>lin p n c. lin \<in> set (js_split (EOL Posix) ''file.txt:12abc:content'')
         \<and> grep_line_fields lin = Some (p, n, c) \<and> js_parseInt n = Some 12 \<and> c = ''content''"
    by auto
  from t1 f1 have l1: "parseGrepLine sample_paths ''/ws'' ''file.txt:abc:content'' [] = []"
    by simp
  from t2 f2 have l2: "parseGrepLine sample_paths ''/ws'' ''file.txt:12abc:content'' [] =
        [\<lparr>filePath = ''file.txt'', lineNumber = 12, line = ''content''\<rparr>]"
    by (simp add: rb)
  from t1 have p: "js_parseInt ''abc'' = None" "js_parseInt ''12abc'' = Some 12" by simp_all
  from mem ex f1 f2 l1 l2 p show ?thesis by simp
qed

section \<open>Properties of the relevance heuristics\<close>

lemma calculateRelevanceScore_sum:
  "calculateRelevanceScore P m pattern =
     min 1
       (5 / 10
        + (if js_includes (toLowerCase (line m)) (toLowerCase pattern) then 2 / 10 else 0)
        + (if length (trim (line m)) < 100 then 1 / 10 else 0)
        + (if length (trim (line m)) < 50 then 1 / 10 else 0)
        + (if indexOf (toLowerCase (trim (line m))) (toLowerCase pattern) 0 < 10 then 1 / 10 else 0)
        + (if toLowerCase (path_extname P (filePath m)) \<in> set favored_extensions then 1 / 10 else 0))"
  by (simp add: calculateRelevanceScore_def Let_def)

lemma calculateRelevanceScore_bounds:
  "5 / 10 \<le> calculateRelevanceScore P m pattern" "calculateRelevanceScore P m pattern \<le> 1"
  by (simp_all add: calculateRelevanceScore_sum)

text \<open>
  C3. The score is 0.5 plus the increments, capped at 1, but the position increment is
  given whenever \<open>indexOf\<close> is below 10, and \<open>indexOf\<close> is \<open>-1\<close> when the pattern
  does not occur in the line. For the line \<open>hello world\<close> in \<open>a.c\<close> and the pattern
  \<open>h.llo\<close>, which matches as a regular expression and is no substring, the code gives
  0.8: the base, the two length increments and the position increment. The score of the
  specification, with the increment kept for a match position within the first 10
  characters, is 0.7.
\<close>

theorem relevance_bonus_without_match:
  "indexOf (toLowerCase (trim ''hello world'')) (toLowerCase ''h.llo'') 0 = - 1
   \<and> calculateRelevanceScore sample_paths
        \<lparr>filePath = ''a.c'', lineNumber = 1, line = ''hello world''\<rparr> ''h.llo'' = 8 / 10
   \<and> spec_relevanceScore sample_paths
        \<lparr>filePath = ''a.c'', lineNumber = 1, line = ''hello world''\<rparr> ''h.llo'' = 7 / 10"
proof -
  have low: "toLowerCase ''hello world'' = ''hello world''" "toLowerCase ''h.llo'' = ''h.llo''"
    by (simp_all add: toLowerCase_def lower_char_def ascii_upper_def ascii_lower_def)
  have tr: "trim ''hello world'' = ''hello world''"
    by (simp add: trim_def js_whitespace_def)
  have idx: "indexOf ''hello world'' ''h.llo'' 0 = - 1"
    by (simp add: indexOf_def)
  have ext: "toLowerCase (path_extname sample_paths ''a.c'') = ''.c''"
    by (simp add: sample_paths_def sample_basename_def toLowerCase_def lower_char_def
        ascii_upper_def ascii_lower_def)
  have fav: "''.c'' \<notin> set favored_extensions"
    by (simp add: favored_extensions_def)
  show ?thesis
    by (simp add: calculateRelevanceScore_sum spec_relevanceScore_def Let_def low tr idx ext fav
        js_includes_def)
qed

lemma metachar_term:
  "0 + (if xs \<noteq> [] then min (of_nat (length xs) * (1 / 10)) (5 / 10) else (0::rat))
     = min (of_nat (length xs) * (1 / 10)) (5 / 10)"
  by (cases xs) simp_all

lemma add_if_right: "(if c then x + d else x) = x + (if c then d else (0::rat))"
  by simp

lemma calculatePatternComplexity_sum:
  "calculatePatternComplexity pattern =
     min 1
       (min (of_nat (length (filter (\<lambda>c. c \<in> set regex_special_chars) pattern)) * (1 / 10)) (5 / 10)
        + min (of_nat (length pattern) * (1 / 100)) (3 / 10)
        + (if pattern \<noteq> toLowerCase pattern \<and> pattern \<noteq> toUpperCase pattern then 1 / 10 else 0)
        + (if js_includes pattern [backslash, CHR ''b'']
              \<or> js_includes pattern [backslash, CHR ''w'']
              \<or> js_includes pattern [backslash, CHR ''d'']
           then 2 / 10 else 0))"
  unfolding calculatePatternComplexity_def Let_def metachar_term add_if_right
  by (rule min.commute)

text \<open>
  C4, as amended. The complexity is the sum, capped at 1, of 0.1 for each occurrence of a
  regular-expression metacharacter (at most 0.5), 0.01 for each character of the pattern
  (at most 0.3), 0.1 when the pattern differs from both its lower-case and its upper-case
  form, and 0.2 when it contains one of the three escapes \<open>\b\<close>, \<open>\w\<close> and \<open>\d\<close>.
\<close>

theorem patternComplexity_formula:
  "calculatePatternComplexity pattern =
     min 1
       (min (of_nat (length (filter (\<lambda>c. c \<in> set regex_special_chars) pattern)) * (1 / 10)) (5 / 10)
        + min (of_nat (length pattern) * (1 / 100)) (3 / 10)
        + (if pattern \<noteq> toLowerCase pattern \<and> pattern \<noteq> toUpperCase pattern then 1 / 10 else 0)
        + (if js_includes pattern [backslash, CHR ''b'']
              \<or> js_includes pattern [backslash, CHR ''w'']
              \<or> js_includes pattern [backslash, CHR ''d'']
           then 2 / 10 else 0))"
  by (rule calculatePatternComplexity_sum)

theorem patternComplexity_formula_witness:
  "calculatePatternComplexity ([backslash] @ ''bFoo'' @ [backslash] @ ''d+'') = 68 / 100"
proof -
  let ?p = "[backslash] @ ''bFoo'' @ [backslash] @ ''d+''"
  have sp: "filter (\<lambda>c. c \<in> set regex_special_chars) ?p = [backslash, backslash, CHR ''+'']"
    by (simp add: regex_special_chars_def backslash_def)
  have mixed: "?p \<noteq> toLowerCase ?p" "?p \<noteq> toUpperCase ?p"
    by (simp_all add: toLowerCase_def toUpperCase_def lower_char_def upper_char_def
        ascii_upper_def ascii_lower_def backslash_def)
  have esc: "js_includes ?p [backslash, CHR ''b'']"
    by (simp add: js_includes_def indexOf_def backslash_def)
  from patternComplexity_formula[of ?p] show ?thesis
    unfolding sp using mixed esc by simp
qed

text \<open>
  The white-space escape \<open>\s\<close> is not among the escapes the code looks for: the pattern
  \<open>\s\<close> has complexity 0.12, where the formula with the white-space escape counted
  gives 0.32.
\<close>

theorem patternComplexity_whitespace_escape:
  "calculatePatternComplexity [backslash, CHR ''s''] = 12 / 100
   \<and> spec_patternComplexity [backslash, CHR ''s''] = 32 / 100"
proof -
  let ?p = "[backslash, CHR ''s'']"
  have sp: "filter (\<lambda>c. c \<in> set regex_special_chars) ?p = [backslash]"
    by (simp add: regex_special_chars_def backslash_def)
  have low: "toLowerCase ?p = ?p"
    by (simp add: toLowerCase_def lower_char_def ascii_upper_def ascii_lower_def backslash_def)
  have inc: "\<not> js_includes ?p [backslash, CHR ''b'']" "\<not> js_includes ?p [backslash, CHR ''w'']"
    "\<not> js_includes ?p [backslash, CHR ''d'']" "js_includes ?p [backslash, CHR ''s'']"
    by (simp_all add: js_includes_def indexOf_def backslash_def)
  show ?thesis
    unfolding calculatePatternComplexity_sum spec_patternComplexity_def sp
    using low inc by simp
qed

lemma js_join_nonempty:
  "xs \<noteq> [] \<Longrightarrow> hd xs \<noteq> [] \<Longrightarrow> js_join sep xs \<noteq> []"
  by (induction sep xs rule: js_join.induct) auto

lemma getMatchReason_reasons:
  assumes "engine pattern = Inr regex_test"
  shows "getMatchReason engine P m pattern =
     Inr (let joined = js_join '', ''
            ((if js_includes (toLowerCase (line m)) (toLowerCase pattern)
              then [''exact pattern match''] else [])
             @ (if regex_test (line m) then [''regex pattern match''] else [])
             @ (if path_extname P (filePath m) \<noteq> []
                then [''found in '' @ path_extname P (filePath m) @ '' file''] else [])
             @ (if lineNumber m < 10 then [''near file beginning''] else []))
          in if joined \<noteq> [] then joined else ''pattern match'')"
  using assms by (simp add: getMatchReason_def Let_def)

text \<open>
  C9. The relevance score lies between 0 and 1. For a pattern that compiles, the match
  reason is returned and is never empty: it is the list of the reasons that apply (the
  pattern is a substring of the line in any letter case, the regular expression matches,
  the file has an extension, the line number is below 10), joined by a comma and a space,
  and \<open>pattern match\<close> when none applies.
\<close>

theorem relevance_range_and_reason:
  "0 \<le> calculateRelevanceScore P m pattern
   \<and> calculateRelevanceScore P m pattern \<le> 1
   \<and> (engine pattern = Inr regex_test \<longrightarrow>
        (\<exists>r. getMatchReason engine P m pattern = Inr r
           \<and> r \<noteq> []
           \<and> r = (let reasons =
                      (if js_includes (toLowerCase (line m)) (toLowerCase pattern)
                       then [''exact pattern match''] else [])
                      @ (if regex_test (line m) then [''regex pattern match''] else [])
                      @ (if path_extname P (filePath m) \<noteq> []
                         then [''found in '' @ path_extname P (filePath m) @ '' file''] else [])
                      @ (if lineNumber m < 10 then [''near file beginning''] else [])
                   in if reasons = [] then ''pattern match'' else js_join '', '' reasons)))"
proof -
  define reasons where "reasons =
      (if js_includes (toLowerCase (line m)) (toLowerCase pattern)
       then [''exact pattern match''] else [])
      @ (if regex_test (line m) then [''regex pattern match''] else [])
      @ (if path_extname P (filePath m) \<noteq> []
         then [''found in '' @ path_extname P (filePath m) @ '' file''] else [])
      @ (if lineNumber m < 10 then [''near file beginning''] else [])"
  have hd: "reasons \<noteq> [] \<Longrightarrow> hd reasons \<noteq> []"
    by (auto simp: reasons_def split: if_splits)
  have join: "js_join '', '' reasons = [] \<longleftrightarrow> reasons = []"
    using js_join_nonempty[of reasons "'', ''"] hd by (cases reasons) auto
  have range: "0 \<le> calculateRelevanceScore P m pattern" "calculateRelevanceScore P m pattern \<le> 1"
    using calculateRelevanceScore_bounds[of P m pattern] by simp_all
  have reason: "engine pattern = Inr regex_test \<longrightarrow>
        (\<exists>r. getMatchReason engine P m pattern = Inr r \<and> r \<noteq> []
           \<and> r = (if reasons = [] then ''pattern match'' else js_join '', '' reasons))"
  proof
    assume ok: "engine pattern = Inr regex_test"
    have "getMatchReason engine P m pattern =
        Inr (if js_join '', '' reasons \<noteq> [] then js_join '', '' reasons else ''pattern match'')"
      using getMatchReason_reasons[of engine pattern regex_test P m, OF ok]
      unfolding reasons_def Let_def .
    then show "\<exists>r. getMatchReason engine P m pattern = Inr r \<and> r \<noteq> []
           \<and> r = (if reasons = [] then ''pattern match'' else js_join '', '' reasons)"
      using join by auto
  qed
  from range reason show ?thesis
    unfolding reasons_def Let_def by (intro conjI)
qed

theorem relevance_range_and_reason_witness:
  "sample_RegExp ''todo'' = Inr (\<lambda>l. js_includes (toLowerCase l) (toLowerCase ''todo''))
   \<and> getMatchReason sample_RegExp sample_paths
        \<lparr>filePath = ''a.txt'', lineNumber = 3, line = ''// TODO fix''\<rparr> ''todo''
      = Inr ''exact pattern match, regex pattern match, found in .txt file, near file beginning''
   \<and> 0 \<le> calculateRelevanceScore sample_paths
        \<lparr>filePath = ''a.txt'', lineNumber = 3, line = ''// TODO fix''\<rparr> ''todo''
   \<and> calculateRelevanceScore sample_paths
        \<lparr>filePath = ''a.txt'', lineNumber = 3, line = ''// TODO fix''\<rparr> ''todo'' \<le> 1"
proof -
  let ?m = "\<lparr>filePath = ''a.txt'', lineNumber = 3, line = ''// TODO fix''\<rparr>"
  let ?t = "\<lambda>l. js_includes (toLowerCase l) (toLowerCase ''todo'')"
  note inst = relevance_range_and_reason[of sample_paths ?m "''todo''" sample_RegExp ?t]
  have ok: "sample_RegExp ''todo'' = Inr ?t"
    by (simp add: sample_RegExp_def)
  have low: "toLowerCase ''// TODO fix'' = ''// todo fix''" "toLowerCase ''todo'' = ''todo''"
    by (simp_all add: toLowerCase_def lower_char_def ascii_upper_def ascii_lower_def)
  have inc: "js_includes ''// todo fix'' ''todo''"
    by (simp add: js_includes_def indexOf_def)
  have ext: "path_extname sample_paths ''a.txt'' = ''.txt''"
    by (simp add: sample_paths_def sample_basename_def)
  from inst ok have "getMatchReason sample_RegExp sample_paths ?m ''todo''
      = Inr ''exact pattern match, regex pattern match, found in .txt file, near file beginning''"
    by (simp add: low inc ext)
  with inst ok show ?thesis by simp
qed

section \<open>Properties of the telemetry session\<close>

lemma complete_active:
  assumes "analytics sess = Some r" and "r < length (heap tb)"
    and "onComplete sess = Some HistoryCallback"
  shows "searchHistory (fst (complete tb sess now)) = searchHistory tb @ [r]"
    and "executionTimeMs (heap (fst (complete tb sess now)) ! r) = now - startTime sess"
    and "length (heap (fst (complete tb sess now))) = length (heap tb)"
    and "snd (complete tb sess now) = Some r"
  using assms
  by (simp_all add: complete_def run_callback_def update_object_def logSearchResults_def Let_def)

lemma startSearch_enabled:
  assumes "analyticsEnabled tb"
  shows "analytics (snd (startSearch tb d t q kind target)) = Some (length (heap tb))"
    and "onComplete (snd (startSearch tb d t q kind target)) = Some HistoryCallback"
    and "startTime (snd (startSearch tb d t q kind target)) = t"
    and "length (heap (fst (startSearch tb d t q kind target))) = Suc (length (heap tb))"
    and "searchHistory (fst (startSearch tb d t q kind target)) = searchHistory tb"
  using assms by (simp_all add: startSearch_def Let_def)

lemma sample_started_session:
  "analytics (snd sample_started) = Some 0" "onComplete (snd sample_started) = Some HistoryCallback"
  "startTime (snd sample_started) = 5" "length (heap (fst sample_started)) = 1"
  "searchHistory (fst sample_started) = []"
  using startSearch_enabled[of "sample_bench True" 1000 5 "''TODO''" KindGrep "''.''"]
  by (simp_all add: sample_started_def sample_bench_def)

section \<open>Properties of the grouping\<close>

lemma list_all_filePath_sort:
  "list_all (\<lambda>m. filePath m = k) (sort_key lineNumber xs) = list_all (\<lambda>m. filePath m = k) xs"
  by (simp add: list_all_iff)

lemma group_push_sorted:
  assumes "groups_sorted acc" and "group_push acc m = Inr acc'"
  shows "groups_sorted acc'"
proof (cases "map_of acc (filePath m)")
  case None
  with assms show ?thesis
    by (auto simp: group_push_def groups_sorted_def Let_def list_all_iff split: if_splits)
next
  case (Some ms)
  then have mem: "(filePath m, ms) \<in> set acc" by (rule map_of_SomeD)
  with assms(1) have ms: "list_all (\<lambda>x. filePath x = filePath m) ms"
    by (auto simp: groups_sorted_def list_all_iff)
  from Some assms(2) have acc': "acc' = map (\<lambda>(k, v). if k = filePath m
      then (k, sort_key lineNumber (ms @ [m])) else (k, v)) acc"
    by (simp add: group_push_def Let_def)
  show ?thesis
    unfolding acc' groups_sorted_def list_all_iff
  proof (intro ballI)
    fix g assume "g \<in> set (map (\<lambda>(k, v). if k = filePath m
      then (k, sort_key lineNumber (ms @ [m])) else (k, v)) acc)"
    then obtain k v where kv: "(k, v) \<in> set acc"
      and g: "g = (if k = filePath m then (k, sort_key lineNumber (ms @ [m])) else (k, v))"
      by auto
    show "sorted (map lineNumber (snd g)) \<and> (\<forall>x \<in> set (snd g). filePath x = fst g)"
    proof (cases "k = filePath m")
      case True
      with g ms show ?thesis by (auto simp: list_all_iff)
    next
      case False
      with g kv assms(1) show ?thesis by (auto simp: groups_sorted_def list_all_iff)
    qed
  qed
qed

lemma matchesByFile_sorted:
  "groups_sorted acc \<Longrightarrow> matchesByFile acc ms = Inr groups \<Longrightarrow> groups_sorted groups"
proof (induction ms arbitrary: acc)
  case Nil
  then show ?case by simp
next
  case (Cons m ms)
  from Cons.prems(2) obtain acc' where push: "group_push acc m = Inr acc'"
    and rest: "matchesByFile acc' ms = Inr groups"
    by (auto split: sum.splits)
  from group_push_sorted[OF Cons.prems(1) push] rest show ?case
    by (rule Cons.IH)
qed

lemma set_for_in_order: "set (for_in_order acc) = set acc"
  by (auto simp: for_in_order_def)

lemma render_result_groups:
  assumes "allMatches \<noteq> []" and "render_result W params dir allMatches = Inr result"
  shows "\<exists>groups header. matchesByFile [] allMatches = Inr groups
           \<and> llmContent result = trim (header @ concat (map render_file (for_in_order groups)))"
proof (cases "matchesByFile [] allMatches")
  case (Inl err)
  with assms show ?thesis by (simp add: render_result_def)
next
  case (Inr groups)
  let ?header = "''Found '' @ show_nat (length allMatches) @ '' ''
      @ (if length allMatches = 1 then ''match'' else ''matches'') @ '' for pattern ''
      @ dquote @ param_pattern params @ dquote @ '' ''
      @ searchLocationDescription W params dir @ filter_note params
      @ '':'' @ [CHR 0x0A] @ ''---'' @ [CHR 0x0A]"
  from Inr assms have "llmContent result = trim (?header @ concat (map render_file (for_in_order groups)))"
    by (auto simp: render_result_def Let_def)
  with Inr show ?thesis by blast
qed

text \<open>
  C7. When the grouping of the aggregated matches succeeds, every group that the
  rendering loop visits lists its matches in non-decreasing order of line number, and
  holds matches of that file only. The text returned for a search with matches is the
  header followed by the rendering of these groups in the order of the loop, and
  \<open>render_file\<close> prints the matches of a group in the order of the list, one
  \<open>L<line>: <text>\<close> line each.
\<close>

theorem groups_ascending_line_numbers:
  "(matchesByFile [] allMatches = Inr groups \<longrightarrow> g \<in> set (for_in_order groups) \<longrightarrow>
      sorted (map lineNumber (snd g)) \<and> (\<forall>m \<in> set (snd g). filePath m = fst g))
   \<and> (allMatches \<noteq> [] \<longrightarrow> render_result W params dir allMatches = Inr result \<longrightarrow>
        (\<exists>groups header. matchesByFile [] allMatches = Inr groups
           \<and> llmContent result = trim (header @ concat (map render_file (for_in_order groups)))))
   \<and> render_file g =
        ''File: '' @ fst g @ [CHR 0x0A]
        @ concat (map (\<lambda>m. ''L'' @ show_int (lineNumber m) @ '': '' @ trim (line m) @ [CHR 0x0A]) (snd g))
        @ ''---'' @ [CHR 0x0A]"
proof (intro conjI impI)
  assume ok: "matchesByFile [] allMatches = Inr groups" and g: "g \<in> set (for_in_order groups)"
  have "groups_sorted []" by (simp add: groups_sorted_def)
  from matchesByFile_sorted[OF this ok] have gs: "groups_sorted groups" .
  from gs g show "sorted (map lineNumber (snd g))"
    by (auto simp: groups_sorted_def list_all_iff set_for_in_order)
  from gs g show "\<forall>m \<in> set (snd g). filePath m = fst g"
    by (auto simp: groups_sorted_def list_all_iff set_for_in_order)
next
  assume "allMatches \<noteq> []" and "render_result W params dir allMatches = Inr result"
  then show "\<exists>groups header. matchesByFile [] allMatches = Inr groups
           \<and> llmContent result = trim (header @ concat (map render_file (for_in_order groups)))"
    by (rule render_result_groups)
next
  have "render_match = (\<lambda>m. ''L'' @ show_int (lineNumber m) @ '': '' @ trim (line m) @ [CHR 0x0A])"
    by (rule ext) (simp add: render_match_def)
  then show "render_file g =
        ''File: '' @ fst g @ [CHR 0x0A]
        @ concat (map (\<lambda>m. ''L'' @ show_int (lineNumber m) @ '': '' @ trim (line m) @ [CHR 0x0A]) (snd g))
        @ ''---'' @ [CHR 0x0A]"
    by (simp add: render_file_def)
qed

theorem groups_ascending_line_numbers_witness:
  "matchesByFile []
     [\<lparr>filePath = ''a.txt'', lineNumber = 7, line = ''x''\<rparr>,
      \<lparr>filePath = ''b.txt'', lineNumber = 2, line = ''y''\<rparr>,
      \<lparr>filePath = ''a.txt'', lineNumber = 3, line = ''z''\<rparr>]
   = Inr [(''a.txt'', [\<lparr>filePath = ''a.txt'', lineNumber = 3, line = ''z''\<rparr>,
                       \<lparr>filePath = ''a.txt'', lineNumber = 7, line = ''x''\<rparr>]),
          (''b.txt'', [\<lparr>filePath = ''b.txt'', lineNumber = 2, line = ''y''\<rparr>])]
   \<and> (''a.txt'', [\<lparr>filePath = ''a.txt'', lineNumber = 3, line = ''z''\<rparr>,
                    \<lparr>filePath = ''a.txt'', lineNumber = 7, line = ''x''\<rparr>])
       \<in> set (for_in_order
            [(''a.txt'', [\<lparr>filePath = ''a.txt'', lineNumber = 3, line = ''z''\<rparr>,
                         \<lparr>filePath = ''a.txt'', lineNumber = 7, line = ''x''\<rparr>]),
             (''b.txt'', [\<lparr>filePath = ''b.txt'', lineNumber = 2, line = ''y''\<rparr>])])
   \<and> sorted (map lineNumber [\<lparr>filePath = ''a.txt'', lineNumber = 3, line = ''z''\<rparr>,
                               \<lparr>filePath = ''a.txt'', lineNumber = 7, line = ''x''\<rparr>])
   \<and> render_result (sample_world (Closed (Some 0) [] []) (Closed (Some 0) [] []))
        \<lparr>param_pattern = ''.'', param_path = None, param_include = None\<rparr> None
        [\<lparr>filePath = ''a.txt'', lineNumber = 7, line = ''x''\<rparr>,
         \<lparr>filePath = ''b.txt'', lineNumber = 2, line = ''y''\<rparr>,
         \<lparr>filePath = ''a.txt'', lineNumber = 3, line = ''z''\<rparr>]
      = Inr \<lparr>llmContent = ''Found 3 matches for pattern '' @ dquote @ ''.'' @ dquote
                       @ '' in the workspace directory:'' @ [CHR 0x0A] @ ''---'' @ [CHR 0x0A]
                       @ ''File: a.txt'' @ [CHR 0x0A] @ ''L3: z'' @ [CHR 0x0A] @ ''L7: x'' @ [CHR 0x0A]
                       @ ''---'' @ [CHR 0x0A]
                       @ ''File: b.txt'' @ [CHR 0x0A] @ ''L2: y'' @ [CHR 0x0A] @ ''---'',
              returnDisplay = ''Found 3 matches''\<rparr>"
proof -
  let ?ms = "[\<lparr>filePath = ''a.txt'', lineNumber = 7, line = ''x''\<rparr>,
      \<lparr>filePath = ''b.txt'', lineNumber = 2, line = ''y''\<rparr>,
      \<lparr>filePath = ''a.txt'', lineNumber = 3, line = ''z''\<rparr>]"
  let ?ga = "(''a.txt'', [\<lparr>filePath = ''a.txt'', lineNumber = 3, line = ''z''\<rparr>,
                       \<lparr>filePath = ''a.txt'', lineNumber = 7, line = ''x''\<rparr>])"
  let ?gs = "[?ga, (''b.txt'', [\<lparr>filePath = ''b.txt'', lineNumber = 2, line = ''y''\<rparr>])]"
  let ?W = "sample_world (Closed (Some 0) [] []) (Closed (Some 0) [] [])"
  let ?p = "\<lparr>param_pattern = ''.'', param_path = None, param_include = None\<rparr>"
  let ?res = "\<lparr>llmContent = ''Found 3 matches for pattern '' @ dquote @ ''.'' @ dquote
                       @ '' in the workspace directory:'' @ [CHR 0x0A] @ ''---'' @ [CHR 0x0A]
                       @ ''File: a.txt'' @ [CHR 0x0A] @ ''L3: z'' @ [CHR 0x0A] @ ''L7: x'' @ [CHR 0x0A]
                       @ ''---'' @ [CHR 0x0A]
                       @ ''File: b.txt'' @ [CHR 0x0A] @ ''L2: y'' @ [CHR 0x0A] @ ''---'',
              returnDisplay = ''Found 3 matches''\<rparr>"
  have ok: "matchesByFile [] ?ms = Inr ?gs"
    by (simp add: group_push_def object_prototype_keys_def Let_def)
  have mem: "?ga \<in> set (for_in_order ?gs)"
    by (simp add: set_for_in_order)
  have ne: "?ms \<noteq> []" by simp
  have rendered: "render_result ?W ?p None ?ms = Inr ?res"
    by code_simp
  from groups_ascending_line_numbers[where allMatches="?ms" and groups="?gs" and g="?ga"
      and W="?W" and params="?p" and dir=None and result="?res"] ok mem ne rendered
  show ?thesis by simp
qed

section \<open>Properties of the strategy chain\<close>

lemma parseGrepOutput_empty: "parseGrepOutput P plat [] basePath = []"
  by (simp add: parseGrepOutput_def)

lemma gitGrepSettled_Closed:
  "gitGrepSettled (Closed code out err) =
     (if code = Some 0 then Resolved out
      else if code = Some 1 then Resolved []
      else Rejected (''git grep exited with code '' @ show_exit_code code @ '': '' @ concat err))"
  by (simp add: gitGrepSettled_def)

lemma systemGrepSettled_Closed:
  "systemGrepSettled (Closed code out err) =
     (if code = Some 0 then Resolved out
      else if code = Some 1 then Resolved []
      else if trim (concat (filter (\<lambda>chunk. \<not> suppressed_chunk chunk) err)) \<noteq> []
           then Rejected (''System grep exited with code '' @ show_exit_code code @ '': ''
                          @ trim (concat (filter (\<lambda>chunk. \<not> suppressed_chunk chunk) err)))
           else Resolved [])"
  by (simp add: systemGrepSettled_def Let_def)

lemma performGrepSearch_git:
  assumes "fst (gitAvailable W absolutePath)"
  shows "fst (performGrepSearch W pattern absolutePath incl) =
     (case gitGrepSettled (spawnProcess W ''git'' (gitGrepArgs pattern incl) (Some absolutePath)) of
        Resolved out \<Rightarrow> Inr (parseGrepOutput (paths W) (os_platform W) out absolutePath)
      | Rejected _ \<Rightarrow> fst (systemGrepStrategy W pattern absolutePath incl))"
  using assms
  by (cases "gitAvailable W absolutePath")
     (simp add: performGrepSearch_def Let_def split: settled.splits prod.splits)

lemma performGrepSearch_no_git:
  assumes "\<not> fst (gitAvailable W absolutePath)"
  shows "fst (performGrepSearch W pattern absolutePath incl) =
     fst (systemGrepStrategy W pattern absolutePath incl)"
  using assms
  by (cases "gitAvailable W absolutePath")
     (simp add: performGrepSearch_def Let_def split: settled.splits prod.splits)

lemma systemGrepStrategy_grep:
  assumes "fst (isCommandAvailable W ''grep'')"
  shows "fst (systemGrepStrategy W pattern absolutePath incl) =
     (case systemGrepSettled (spawnProcess W ''grep'' (systemGrepArgs pattern incl) (Some absolutePath)) of
        Resolved out \<Rightarrow> Inr (parseGrepOutput (paths W) (os_platform W) out absolutePath)
      | Rejected _ \<Rightarrow> fst (javascriptFallback W pattern absolutePath incl))"
  using assms
  by (cases "isCommandAvailable W ''grep''")
     (simp add: systemGrepStrategy_def Let_def split: settled.splits prod.splits)

lemma systemGrepStrategy_no_grep:
  assumes "\<not> fst (isCommandAvailable W ''grep'')"
  shows "fst (systemGrepStrategy W pattern absolutePath incl) =
     fst (javascriptFallback W pattern absolutePath incl)"
  using assms
  by (cases "isCommandAvailable W ''grep''")
     (simp add: systemGrepStrategy_def Let_def split: settled.splits prod.splits)

lemma sample_world_available:
  "fst (gitAvailable (sample_world g r) ''/ws'')"
  "fst (isCommandAvailable (sample_world g r) ''grep'')"
  by (simp_all add: gitAvailable_def isCommandAvailable_def sample_world_def Let_def)

lemma sample_world_spawn:
  "spawnProcess (sample_world g r) ''git'' args cwd = g"
  "spawnProcess (sample_world g r) ''grep'' args cwd = r"
  "paths (sample_world g r) = sample_paths"
  "os_platform (sample_world g r) = Posix"
  by (simp_all add: sample_world_def)

lemma sample_parse:
  "parseGrepOutput sample_paths Posix ''a.txt:3:// TODO fix'' ''/ws''
     = [\<lparr>filePath = ''a.txt'', lineNumber = 3, line = ''// TODO fix''\<rparr>]"
  by code_simp

lemma sample_fallback:
  "fst (javascriptFallback (sample_world g r) ''todo'' ''/ws'' None)
     = Inr [\<lparr>filePath = ''a.txt'', lineNumber = 3, line = ''// TODO fix''\<rparr>]"
proof -
  have files: "file_matches (sample_world g r) (\<lambda>l. js_includes (toLowerCase l) (toLowerCase ''todo'')) ''/ws'' ''/ws/a.txt''
      = [\<lparr>filePath = ''a.txt'', lineNumber = 3, line = ''// TODO fix''\<rparr>]"
    "file_matches (sample_world g r) (\<lambda>l. js_includes (toLowerCase l) (toLowerCase ''todo'')) ''/ws'' ''/ws/b.txt'' = []"
    unfolding file_matches_def sample_world_def sample_paths_def by code_simp+
  show ?thesis
    unfolding javascriptFallback_def
    by (simp add: sample_world_def sample_RegExp_def truthy_def files[unfolded sample_world_def])
qed

text \<open>
  C2. When git grep runs and closes with exit code 0, its standard output is parsed into
  the matches; with exit code 1 the match list is empty; with any other exit code
  (\<open>null\<close> included) the search goes on with the system grep strategy and its result is
  the result of the search. When system grep runs, exit code 0 gives the parsed output
  and exit code 1 the empty list; another exit code makes the search go on with the
  JavaScript fallback when the standard error that was not suppressed is not blank, and
  gives the empty list when it is blank.
\<close>

theorem exit_code_semantics:
  "(fst (gitAvailable W absolutePath) \<longrightarrow>
      spawnProcess W ''git'' (gitGrepArgs pattern incl) (Some absolutePath) = Closed code out err \<longrightarrow>
        (code = Some 0 \<longrightarrow>
           fst (performGrepSearch W pattern absolutePath incl)
             = Inr (parseGrepOutput (paths W) (os_platform W) out absolutePath))
      \<and> (code = Some 1 \<longrightarrow> fst (performGrepSearch W pattern absolutePath incl) = Inr [])
      \<and> (code \<noteq> Some 0 \<longrightarrow> code \<noteq> Some 1 \<longrightarrow>
           fst (performGrepSearch W pattern absolutePath incl)
             = fst (systemGrepStrategy W pattern absolutePath incl)))
   \<and> (fst (isCommandAvailable W ''grep'') \<longrightarrow>
      spawnProcess W ''grep'' (systemGrepArgs pattern incl) (Some absolutePath) = Closed code out err \<longrightarrow>
        (code = Some 0 \<longrightarrow>
           fst (systemGrepStrategy W pattern absolutePath incl)
             = Inr (parseGrepOutput (paths W) (os_platform W) out absolutePath))
      \<and> (code = Some 1 \<longrightarrow> fst (systemGrepStrategy W pattern absolutePath incl) = Inr [])
      \<and> (code \<noteq> Some 0 \<longrightarrow> code \<noteq> Some 1 \<longrightarrow>
           trim (concat (filter (\<lambda>chunk. \<not> suppressed_chunk chunk) err)) \<noteq> [] \<longrightarrow>
           fst (systemGrepStrategy W pattern absolutePath incl)
             = fst (javascriptFallback W pattern absolutePath incl))
      \<and> (code \<noteq> Some 0 \<longrightarrow> code \<noteq> Some 1 \<longrightarrow>
           trim (concat (filter (\<lambda>chunk. \<not> suppressed_chunk chunk) err)) = [] \<longrightarrow>
           fst (systemGrepStrategy W pattern absolutePath incl) = Inr []))"
proof (intro conjI impI)
  assume "fst (gitAvailable W absolutePath)"
    and "spawnProcess W ''git'' (gitGrepArgs pattern incl) (Some absolutePath) = Closed code out err"
  note git = performGrepSearch_git[OF this(1), where pattern=pattern and incl=incl, unfolded this(2) gitGrepSettled_Closed]
  {
    assume "code = Some 0"
    with git show "fst (performGrepSearch W pattern absolutePath incl)
             = Inr (parseGrepOutput (paths W) (os_platform W) out absolutePath)"
      by simp
  next
    assume "code = Some 1"
    with git show "fst (performGrepSearch W pattern absolutePath incl) = Inr []"
      by (simp add: parseGrepOutput_empty)
  next
    assume "code \<noteq> Some 0" "code \<noteq> Some 1"
    with git show "fst (performGrepSearch W pattern absolutePath incl)
             = fst (systemGrepStrategy W pattern absolutePath incl)"
      by simp
  }
next
  assume "fst (isCommandAvailable W ''grep'')"
    and "spawnProcess W ''grep'' (systemGrepArgs pattern incl) (Some absolutePath) = Closed code out err"
  note grep = systemGrepStrategy_grep[OF this(1), where pattern=pattern and incl=incl and absolutePath=absolutePath,
      unfolded this(2) systemGrepSettled_Closed]
  {
    assume "code = Some 0"
    with grep show "fst (systemGrepStrategy W pattern absolutePath incl)
             = Inr (parseGrepOutput (paths W) (os_platform W) out absolutePath)"
      by simp
  next
    assume "code = Some 1"
    with grep show "fst (systemGrepStrategy W pattern absolutePath incl) = Inr []"
      by (simp add: parseGrepOutput_empty)
  next
    assume "code \<noteq> Some 0" "code \<noteq> Some 1"
      "trim (concat (filter (\<lambda>chunk. \<not> suppressed_chunk chunk) err)) \<noteq> []"
    with grep show "fst (systemGrepStrategy W pattern absolutePath incl)
             = fst (javascriptFallback W pattern absolutePath incl)"
      by simp
  next
    assume "code \<noteq> Some 0" "code \<noteq> Some 1"
      "trim (concat (filter (\<lambda>chunk. \<not> suppressed_chunk chunk) err)) = []"
    with grep show "fst (systemGrepStrategy W pattern absolutePath incl) = Inr []"
      by (simp add: parseGrepOutput_empty)
  }
qed


theorem exit_code_semantics_witness:
  "fst (performGrepSearch
          (sample_world (Closed (Some 0) ''a.txt:3:// TODO fix'' []) (Closed (Some 0) [] []))
          ''todo'' ''/ws'' None)
     = Inr [\<lparr>filePath = ''a.txt'', lineNumber = 3, line = ''// TODO fix''\<rparr>]
   \<and> fst (performGrepSearch
          (sample_world (Closed (Some 1) ''a.txt:3:// TODO fix'' []) (Closed (Some 0) [] []))
          ''todo'' ''/ws'' None)
     = Inr []
   \<and> fst (performGrepSearch
          (sample_world (Closed (Some 128) [] [''fatal: not a git repository''])
             (Closed (Some 0) ''a.txt:3:// TODO fix'' []))
          ''todo'' ''/ws'' None)
     = Inr [\<lparr>filePath = ''a.txt'', lineNumber = 3, line = ''// TODO fix''\<rparr>]
   \<and> fst (systemGrepStrategy
          (sample_world (SpawnError ''ENOENT'') (Closed (Some 1) ''a.txt:3:// TODO fix'' []))
          ''todo'' ''/ws'' None)
     = Inr []
   \<and> fst (systemGrepStrategy
          (sample_world (SpawnError ''ENOENT'') (Closed (Some 2) [] [''grep: Invalid regular expression''])) 
          ''todo'' ''/ws'' None)
     = Inr [\<lparr>filePath = ''a.txt'', lineNumber = 3, line = ''// TODO fix''\<rparr>]
   \<and> fst (systemGrepStrategy
          (sample_world (SpawnError ''ENOENT'')
             (Closed (Some 2) [] [''grep: ./secret: Permission denied'', ''grep: ./src: Is a directory'']))
          ''todo'' ''/ws'' None)
     = Inr []"
proof -
  let ?out = "''a.txt:3:// TODO fix''"
  let ?m = "[\<lparr>filePath = ''a.txt'', lineNumber = 3, line = ''// TODO fix''\<rparr>]"
  let ?W0 = "sample_world (Closed (Some 0) ?out []) (Closed (Some 0) [] [])"
  let ?W1 = "sample_world (Closed (Some 1) ?out []) (Closed (Some 0) [] [])"
  let ?W2 = "sample_world (Closed (Some 128) [] [''fatal: not a git repository'']) (Closed (Some 0) ?out [])"
  let ?G1 = "sample_world (SpawnError ''ENOENT'') (Closed (Some 1) ?out [])"
  let ?G2 = "sample_world (SpawnError ''ENOENT'') (Closed (Some 2) [] [''grep: Invalid regular expression''])"
  let ?G3 = "sample_world (SpawnError ''ENOENT'')
             (Closed (Some 2) [] [''grep: ./secret: Permission denied'', ''grep: ./src: Is a directory''])"
  have loud: "trim (concat (filter (\<lambda>chunk. \<not> suppressed_chunk chunk) [''grep: Invalid regular expression''])) \<noteq> []"
    by code_simp
  have quiet: "trim (concat (filter (\<lambda>chunk. \<not> suppressed_chunk chunk)
      [''grep: ./secret: Permission denied'', ''grep: ./src: Is a directory''])) = []"
    by code_simp
  have a: "fst (performGrepSearch ?W0 ''todo'' ''/ws'' None) = Inr ?m"
    using exit_code_semantics[where W="?W0" and absolutePath="''/ws''" and pattern="''todo''"
        and incl=None and code="Some 0" and out="?out" and err="[]"]
    by (simp add: sample_world_available sample_world_spawn sample_parse)
  have b: "fst (performGrepSearch ?W1 ''todo'' ''/ws'' None) = Inr []"
    using exit_code_semantics[where W="?W1" and absolutePath="''/ws''" and pattern="''todo''"
        and incl=None and code="Some 1" and out="?out" and err="[]"]
    by (simp add: sample_world_available sample_world_spawn)
  have c1: "fst (performGrepSearch ?W2 ''todo'' ''/ws'' None) = fst (systemGrepStrategy ?W2 ''todo'' ''/ws'' None)"
    using exit_code_semantics[where W="?W2" and absolutePath="''/ws''" and pattern="''todo''"
        and incl=None and code="Some 128" and out="[]" and err="[''fatal: not a git repository'']"]
    by (simp add: sample_world_available sample_world_spawn)
  have c2: "fst (systemGrepStrategy ?W2 ''todo'' ''/ws'' None) = Inr ?m"
    using exit_code_semantics[where W="?W2" and absolutePath="''/ws''" and pattern="''todo''"
        and incl=None and code="Some 0" and out="?out" and err="[]"]
    by (simp add: sample_world_available sample_world_spawn sample_parse)
  have d: "fst (systemGrepStrategy ?G1 ''todo'' ''/ws'' None) = Inr []"
    using exit_code_semantics[where W="?G1" and absolutePath="''/ws''" and pattern="''todo''"
        and incl=None and code="Some 1" and out="?out" and err="[]"]
    by (simp add: sample_world_available sample_world_spawn)
  have e: "fst (systemGrepStrategy ?G2 ''todo'' ''/ws'' None) = Inr ?m"
    using exit_code_semantics[where W="?G2" and absolutePath="''/ws''" and pattern="''todo''"
        and incl=None and code="Some 2" and out="[]" and err="[''grep: Invalid regular expression'']"] loud
    by (simp add: sample_world_available sample_world_spawn sample_fallback)
  have f: "fst (systemGrepStrategy ?G3 ''todo'' ''/ws'' None) = Inr []"
    using exit_code_semantics[where W="?G3" and absolutePath="''/ws''" and pattern="''todo''"
        and incl=None and code="Some 2" and out="[]"
        and err="[''grep: ./secret: Permission denied'', ''grep: ./src: Is a directory'']"] quiet
    by (simp add: sample_world_available sample_world_spawn)
  from a b c1 c2 d e f show ?thesis by simp
qed

section \<open>Properties of validation\<close>

lemma execute_validation_error:
  assumes "validateToolParams W params = (Some msg, tr)" and "msg \<noteq> []"
  shows "fst (execute W clk tb params) =
      \<lparr>llmContent = ''Error: Invalid parameters provided. Reason: '' @ msg,
       returnDisplay = ''Model provided invalid parameters. Error: '' @ msg\<rparr>"
    and "snd (snd (execute W clk tb params)) = tr"
  using assms
  by (simp_all add: execute_def Let_def truthy_def split: prod.splits)

lemma truthy_SomeD: "truthy v \<Longrightarrow> \<exists>msg. v = Some msg \<and> msg \<noteq> []"
  by (cases v) (simp_all add: truthy_def)

lemma validate_invalid_regex:
  assumes "RegExp W (param_pattern params) = Inl err"
  shows "\<exists>msg. msg \<noteq> [] \<and> validateToolParams W params = (Some msg, [])"
proof (cases "truthy (schemaErrors W params)")
  case True
  then obtain msg where "schemaErrors W params = Some msg" "msg \<noteq> []"
    using truthy_SomeD by blast
  with True show ?thesis by (simp add: validateToolParams_def)
next
  case False
  with assms show ?thesis by (simp add: validateToolParams_def)
qed

lemma resolve_invalid_path:
  assumes "truthy p"
    and "\<not> isPathWithinWorkspace W (path_resolve (paths W) (targetDir W) (the p))
         \<or> statSync W (path_resolve (paths W) (targetDir W) (the p)) \<noteq> IsDirectory"
  shows "\<exists>msg tr. msg \<noteq> [] \<and> resolveAndValidatePath W p = (Inl msg, tr)
           \<and> (tr = [] \<or> tr = [StatSync (path_resolve (paths W) (targetDir W) (the p))])"
  using assms
  by (cases "statSync W (path_resolve (paths W) (targetDir W) (the p))")
     (auto simp: resolveAndValidatePath_def Let_def)

lemma validate_invalid_path:
  assumes "truthy (param_path params)"
    and "\<not> isPathWithinWorkspace W (path_resolve (paths W) (targetDir W) (the (param_path params)))
         \<or> statSync W (path_resolve (paths W) (targetDir W) (the (param_path params))) \<noteq> IsDirectory"
  shows "\<exists>msg tr. msg \<noteq> [] \<and> validateToolParams W params = (Some msg, tr)
           \<and> (tr = [] \<or> tr = [StatSync (path_resolve (paths W) (targetDir W) (the (param_path params)))])"
proof (cases "truthy (schemaErrors W params)")
  case True
  then obtain msg where "schemaErrors W params = Some msg" "msg \<noteq> []"
    using truthy_SomeD by blast
  with True show ?thesis by (simp add: validateToolParams_def)
next
  case False
  show ?thesis
  proof (cases "RegExp W (param_pattern params)")
    case (Inl err)
    from validate_invalid_regex[OF this] show ?thesis by blast
  next
    case (Inr t)
    from resolve_invalid_path[OF assms] obtain msg tr where
      "msg \<noteq> []" "resolveAndValidatePath W (param_path params) = (Inl msg, tr)"
      "tr = [] \<or> tr = [StatSync (path_resolve (paths W) (targetDir W) (the (param_path params)))]"
      by blast
    with False Inr assms(1) show ?thesis
      by (simp add: validateToolParams_def)
  qed
qed

text \<open>
  C8. For a pattern that is not a legal regular expression, validation returns a
  non-empty error message, \<open>execute\<close> returns the result that carries it, and no access
  to the file system or to a process has been made. For a supplied path that resolves
  outside the workspace, does not exist or is not a directory, validation returns a
  non-empty message as well and \<open>execute\<close> returns the same kind of result; the only
  access made is at most the one \<open>statSync\<close> of the resolved path, so no search
  strategy has run.
\<close>

theorem invalid_parameters_rejected:
  "(RegExp W (param_pattern params) = Inl err \<longrightarrow>
      (\<exists>msg. msg \<noteq> []
         \<and> validateToolParams W params = (Some msg, [])
         \<and> fst (execute W clk tb params) =
             \<lparr>llmContent = ''Error: Invalid parameters provided. Reason: '' @ msg,
              returnDisplay = ''Model provided invalid parameters. Error: '' @ msg\<rparr>
         \<and> snd (snd (execute W clk tb params)) = []))
   \<and> (truthy (param_path params) \<longrightarrow>
        (\<not> isPathWithinWorkspace W (path_resolve (paths W) (targetDir W) (the (param_path params)))
         \<or> statSync W (path_resolve (paths W) (targetDir W) (the (param_path params))) \<noteq> IsDirectory) \<longrightarrow>
      (\<exists>msg tr. msg \<noteq> []
         \<and> validateToolParams W params = (Some msg, tr)
         \<and> fst (execute W clk tb params) =
             \<lparr>llmContent = ''Error: Invalid parameters provided. Reason: '' @ msg,
              returnDisplay = ''Model provided invalid parameters. Error: '' @ msg\<rparr>
         \<and> snd (snd (execute W clk tb params)) = tr
         \<and> (tr = [] \<or> tr = [StatSync (path_resolve (paths W) (targetDir W) (the (param_path params)))])))"
proof (intro conjI impI)
  assume "RegExp W (param_pattern params) = Inl err"
  from validate_invalid_regex[OF this] obtain msg where
    m: "msg \<noteq> []" "validateToolParams W params = (Some msg, [])" by blast
  from execute_validation_error[OF m(2) m(1), of clk tb] m
  show "\<exists>msg. msg \<noteq> []
         \<and> validateToolParams W params = (Some msg, [])
         \<and> fst (execute W clk tb params) =
             \<lparr>llmContent = ''Error: Invalid parameters provided. Reason: '' @ msg,
              returnDisplay = ''Model provided invalid parameters. Error: '' @ msg\<rparr>
         \<and> snd (snd (execute W clk tb params)) = []"
    by blast
next
  assume "truthy (param_path params)"
    and "\<not> isPathWithinWorkspace W (path_resolve (paths W) (targetDir W) (the (param_path params)))
         \<or> statSync W (path_resolve (paths W) (targetDir W) (the (param_path params))) \<noteq> IsDirectory"
  from validate_invalid_path[OF this] obtain msg tr where
    m: "msg \<noteq> []" "validateToolParams W params = (Some msg, tr)"
      "tr = [] \<or> tr = [StatSync (path_resolve (paths W) (targetDir W) (the (param_path params)))]"
    by blast
  from execute_validation_error[OF m(2) m(1), of clk tb] m
  show "\<exists>msg tr. msg \<noteq> []
         \<and> validateToolParams W params = (Some msg, tr)
         \<and> fst (execute W clk tb params) =
             \<lparr>llmContent = ''Error: Invalid parameters provided. Reason: '' @ msg,
              returnDisplay = ''Model provided invalid parameters. Error: '' @ msg\<rparr>
         \<and> snd (snd (execute W clk tb params)) = tr
         \<and> (tr = [] \<or> tr = [StatSync (path_resolve (paths W) (targetDir W) (the (param_path params)))])"
    by blast
qed


theorem invalid_parameters_rejected_witness:
  "RegExp (sample_world (Closed (Some 0) [] []) (Closed (Some 0) [] [])) ''(''
     = Inl ''Invalid regular expression: /(/: Unterminated group''
   \<and> execute (sample_world (Closed (Some 0) [] []) (Closed (Some 0) [] [])) sample_clock
        (sample_bench False) \<lparr>param_pattern = ''('', param_path = None, param_include = None\<rparr>
      = (\<lparr>llmContent = ''Error: Invalid parameters provided. Reason: Invalid regular expression pattern provided: (. Error: Invalid regular expression: /(/: Unterminated group'',
          returnDisplay = ''Model provided invalid parameters. Error: Invalid regular expression pattern provided: (. Error: Invalid regular expression: /(/: Unterminated group''\<rparr>,
         sample_bench False, [])
   \<and> \<not> isPathWithinWorkspace (sample_world (Closed (Some 0) [] []) (Closed (Some 0) [] [])) ''/etc''
   \<and> snd (snd (execute (sample_world (Closed (Some 0) [] []) (Closed (Some 0) [] [])) sample_clock
        (sample_bench False)
        \<lparr>param_pattern = ''todo'', param_path = Some ''/etc'', param_include = None\<rparr>)) = []
   \<and> statSync (sample_world (Closed (Some 0) [] []) (Closed (Some 0) [] [])) ''/ws/a.txt'' = NotDirectory
   \<and> snd (snd (execute (sample_world (Closed (Some 0) [] []) (Closed (Some 0) [] [])) sample_clock
        (sample_bench False)
        \<lparr>param_pattern = ''todo'', param_path = Some ''/ws/a.txt'', param_include = None\<rparr>))
       = [StatSync ''/ws/a.txt'']
   \<and> statSync (sample_world (Closed (Some 0) [] []) (Closed (Some 0) [] [])) ''/ws/missing''
       = StatFails ''ENOENT'' ''Error: ENOENT: no such file or directory''
   \<and> returnDisplay (fst (execute (sample_world (Closed (Some 0) [] []) (Closed (Some 0) [] [])) sample_clock
        (sample_bench False)
        \<lparr>param_pattern = ''todo'', param_path = Some ''/ws/missing'', param_include = None\<rparr>))
       = ''Model provided invalid parameters. Error: Failed to access path stats for /ws/missing: Error: ENOENT: no such file or directory''"
proof -
  let ?W = "sample_world (Closed (Some 0) [] []) (Closed (Some 0) [] [])"
  let ?p1 = "\<lparr>param_pattern = ''('', param_path = None, param_include = None\<rparr>"
  let ?p2 = "\<lparr>param_pattern = ''todo'', param_path = Some ''/etc'', param_include = None\<rparr>"
  let ?p3 = "\<lparr>param_pattern = ''todo'', param_path = Some ''/ws/a.txt'', param_include = None\<rparr>"
  let ?p4 = "\<lparr>param_pattern = ''todo'', param_path = Some ''/ws/missing'', param_include = None\<rparr>"
  have W: "RegExp ?W = sample_RegExp" "paths ?W = sample_paths" "targetDir ?W = ''/ws''"
    "schemaErrors ?W = (\<lambda>params. None)" "isPathWithinWorkspace ?W = (\<lambda>p. prefix ''/ws'' p)"
    "workspaceDirectories ?W = [''/ws'']"
    by (simp_all add: sample_world_def)
  have re: "RegExp ?W ''('' = Inl ''Invalid regular expression: /(/: Unterminated group''"
    "RegExp ?W ''todo'' = Inr (\<lambda>l. js_includes (toLowerCase l) (toLowerCase ''todo''))"
    by (simp_all add: W sample_RegExp_def)
  have res: "path_resolve (paths ?W) (targetDir ?W) ''/etc'' = ''/etc''"
    "path_resolve (paths ?W) (targetDir ?W) ''/ws/a.txt'' = ''/ws/a.txt''"
    "path_resolve (paths ?W) (targetDir ?W) ''/ws/missing'' = ''/ws/missing''"
    by (simp_all add: W sample_paths_def)
  have st: "\<not> isPathWithinWorkspace ?W ''/etc''" "isPathWithinWorkspace ?W ''/ws/a.txt''"
    "isPathWithinWorkspace ?W ''/ws/missing''"
    "statSync ?W ''/ws/a.txt'' = NotDirectory"
    "statSync ?W ''/ws/missing'' = StatFails ''ENOENT'' ''Error: ENOENT: no such file or directory''"
    by (simp_all add: sample_world_def)
  have tr: "truthy (Some ''/etc'')" "truthy (Some ''/ws/a.txt'')" "truthy (Some ''/ws/missing'')"
    "\<not> truthy None"
    by (simp_all add: truthy_def)
  have v1: "validateToolParams ?W ?p1 = (Some (''Invalid regular expression pattern provided: (. Error: ''
      @ ''Invalid regular expression: /(/: Unterminated group''), [])"
    by (simp add: validateToolParams_def W sample_RegExp_def tr)
  have v3: "validateToolParams ?W ?p3 = (Some (''Failed to access path stats for /ws/a.txt''
      @ '': Error: Path is not a directory: /ws/a.txt''), [StatSync ''/ws/a.txt''])"
    using res st by (simp add: validateToolParams_def resolveAndValidatePath_def Let_def W sample_RegExp_def tr)
  have v4: "validateToolParams ?W ?p4 = (Some (''Failed to access path stats for /ws/missing''
      @ '': Error: ENOENT: no such file or directory''), [StatSync ''/ws/missing''])"
    using res st by (simp add: validateToolParams_def resolveAndValidatePath_def Let_def W sample_RegExp_def tr)
  have v2: "snd (validateToolParams ?W ?p2) = []"
    using res st by (simp add: validateToolParams_def resolveAndValidatePath_def Let_def W sample_RegExp_def tr)
  have start: "startSearch (sample_bench False) d t q kind target =
      (sample_bench False, \<lparr>analytics = None, startTime = t, onComplete = None\<rparr>)" for d t q kind target
    by (simp add: startSearch_def sample_bench_def)
  have tb1: "fst (snd (execute ?W sample_clock (sample_bench False) ?p1)) = sample_bench False"
    by (simp add: execute_def start setPattern_def complete_def v1 truthy_def)
  from invalid_parameters_rejected[where W="?W" and params="?p1" and clk=sample_clock
      and tb="sample_bench False" and err="''Invalid regular expression: /(/: Unterminated group''"] re v1 tb1
  have a: "execute ?W sample_clock (sample_bench False) ?p1
      = (\<lparr>llmContent = ''Error: Invalid parameters provided. Reason: Invalid regular expression pattern provided: (. Error: Invalid regular expression: /(/: Unterminated group'',
          returnDisplay = ''Model provided invalid parameters. Error: Invalid regular expression pattern provided: (. Error: Invalid regular expression: /(/: Unterminated group''\<rparr>,
         sample_bench False, [])"
    by (auto simp: prod_eq_iff)
  from invalid_parameters_rejected[where W="?W" and params="?p2" and clk=sample_clock
      and tb="sample_bench False" and err="[]"] tr st res v2
  have b: "snd (snd (execute ?W sample_clock (sample_bench False) ?p2)) = []"
    by auto
  from invalid_parameters_rejected[where W="?W" and params="?p3" and clk=sample_clock
      and tb="sample_bench False" and err="[]"] tr st res v3
  have c: "snd (snd (execute ?W sample_clock (sample_bench False) ?p3)) = [StatSync ''/ws/a.txt'']"
    by auto
  from invalid_parameters_rejected[where W="?W" and params="?p4" and clk=sample_clock
      and tb="sample_bench False" and err="[]"] tr st res v4
  have d: "returnDisplay (fst (execute ?W sample_clock (sample_bench False) ?p4))
       = ''Model provided invalid parameters. Error: Failed to access path stats for /ws/missing: Error: ENOENT: no such file or directory''"
    by auto
  from re(1) a st(1) b st(4) c st(5) d show ?thesis by (intro conjI)
qed

section \<open>Telemetry does not change the search\<close>

lemma same_shape_refl: "same_shape tb tb"
  by (simp add: same_shape_def)

lemma same_shape_trans: "same_shape a b \<Longrightarrow> same_shape b c \<Longrightarrow> same_shape a c"
  by (simp add: same_shape_def)

lemma same_shape_update_object: "same_shape tb (update_object tb r f)"
  by (simp add: same_shape_def update_object_def)

lemma same_shape_ops:
  "same_shape tb (addMatch tb sess m)"
  "same_shape tb (setFilesScanned tb sess n)"
  "same_shape tb (setPattern tb sess p)"
  "same_shape tb (addRankingFactor tb sess f)"
  by (simp_all add: addMatch_def setFilesScanned_def setPattern_def addRankingFactor_def
      same_shape_update_object same_shape_refl split: option.splits)

lemma inactive_ops:
  assumes "analytics sess = None"
  shows "addMatch tb sess m = tb" "setFilesScanned tb sess n = tb" "setPattern tb sess p = tb"
    "addRankingFactor tb sess f = tb" "\<not> isActive sess"
  using assms
  by (simp_all add: addMatch_def setFilesScanned_def setPattern_def addRankingFactor_def isActive_def)

lemma same_shape_ranking: "same_shape tb (addSearchRankingFactors W tb sess p incl n k)"
  unfolding addSearchRankingFactors_def Let_def
  by (auto intro: same_shape_refl same_shape_trans[OF same_shape_ops(4)]
      same_shape_trans[OF same_shape_ops(4) same_shape_trans[OF same_shape_ops(4)]]
      same_shape_trans[OF same_shape_ops(4) same_shape_trans[OF same_shape_ops(4)
        same_shape_trans[OF same_shape_ops(4)]]] same_shape_ops(4))

lemma createMatchAnalytics_valid:
  assumes "RegExp W p = Inr t"
  shows "\<exists>d. fst (createMatchAnalytics W m p sp) = Inr d"
proof -
  from assms obtain r where "getMatchReason (RegExp W) (paths W) m p = Inr r"
    by (simp add: getMatchReason_def Let_def)
  then show ?thesis
    by (simp add: createMatchAnalytics_def Let_def split: prod.splits)
qed

lemma record_matches_valid:
  assumes "RegExp W p = Inr t"
  shows "fst (record_matches W tb sess p sp ms) = None
     \<and> same_shape tb (fst (snd (record_matches W tb sess p sp ms)))"
proof (induction ms arbitrary: tb)
  case Nil
  show ?case by (simp add: same_shape_refl)
next
  case (Cons m ms)
  from createMatchAnalytics_valid[OF assms, of m sp] obtain d tr
    where c: "createMatchAnalytics W m p sp = (Inr d, tr)"
    by (cases "createMatchAnalytics W m p sp") auto
  obtain f tb' tr' where r: "record_matches W (addMatch tb sess d) sess p sp ms = (f, tb', tr')"
    by (cases "record_matches W (addMatch tb sess d) sess p sp ms") auto
  from Cons.IH[of "addMatch tb sess d"] r have "f = None" "same_shape (addMatch tb sess d) tb'"
    by simp_all
  with c r same_shape_trans[OF same_shape_ops(1)[of tb sess d]] show ?case
    by simp
qed

lemma record_matches_inactive:
  assumes "analytics sess = None"
  shows "fst (snd (record_matches W tb sess p sp ms)) = tb"
  by (induction ms) (auto simp: inactive_ops[OF assms] split: prod.splits sum.splits)

lemma with_analytics_matches:
  assumes "RegExp W p = Inr t"
  shows "fst (performGrepSearchWithAnalytics W tb sess p sp incl) = fst (performGrepSearch W p sp incl)"
    and "same_shape tb (fst (snd (performGrepSearchWithAnalytics W tb sess p sp incl)))"
proof -
  obtain res tr where s: "performGrepSearch W p sp incl = (res, tr)"
    by (cases "performGrepSearch W p sp incl") auto
  show "fst (performGrepSearchWithAnalytics W tb sess p sp incl) = fst (performGrepSearch W p sp incl)"
  proof (cases res)
    case (Inl e)
    with s show ?thesis by (simp add: performGrepSearchWithAnalytics_def)
  next
    case (Inr ms)
    show ?thesis
    proof (cases "isActive sess")
      case False
      with s Inr show ?thesis by (simp add: performGrepSearchWithAnalytics_def)
    next
      case True
      let ?tb1 = "setFilesScanned tb sess (length (fst (globStream W
          (if truthy incl then the incl else ''**/*'') sp counting_ignores False)))"
      obtain f tb2 tr2 where r: "record_matches W ?tb1 sess p sp ms = (f, tb2, tr2)"
        by (cases "record_matches W ?tb1 sess p sp ms") auto
      with record_matches_valid[OF assms, of ?tb1 sess sp ms] have "f = None" by simp
      with s Inr True r show ?thesis
        by (simp add: performGrepSearchWithAnalytics_def Let_def)
    qed
  qed
  show "same_shape tb (fst (snd (performGrepSearchWithAnalytics W tb sess p sp incl)))"
  proof (cases res)
    case (Inl e)
    with s show ?thesis by (simp add: performGrepSearchWithAnalytics_def same_shape_refl)
  next
    case (Inr ms)
    show ?thesis
    proof (cases "isActive sess")
      case False
      with s Inr show ?thesis by (simp add: performGrepSearchWithAnalytics_def same_shape_refl)
    next
      case True
      let ?tb1 = "setFilesScanned tb sess (length (fst (globStream W
          (if truthy incl then the incl else ''**/*'') sp counting_ignores False)))"
      obtain f tb2 tr2 where r: "record_matches W ?tb1 sess p sp ms = (f, tb2, tr2)"
        by (cases "record_matches W ?tb1 sess p sp ms") auto
      with record_matches_valid[OF assms, of ?tb1 sess sp ms]
      have f: "f = None" and sh: "same_shape ?tb1 tb2" by simp_all
      have "same_shape tb ?tb1" by (rule same_shape_ops)
      from this sh have "same_shape tb tb2" by (rule same_shape_trans)
      from this same_shape_ranking
      have "same_shape tb (addSearchRankingFactors W tb2 sess p incl (length ms)
          (length (fst (globStream W (if truthy incl then the incl else ''**/*'') sp counting_ignores False))))"
        by (rule same_shape_trans)
      with s Inr True r f show ?thesis
        by (simp add: performGrepSearchWithAnalytics_def Let_def)
    qed
  qed
qed

lemma with_analytics_inactive:
  assumes "analytics sess = None"
  shows "fst (snd (performGrepSearchWithAnalytics W tb sess p sp incl)) = tb"
  using inactive_ops(5)[OF assms]
  by (simp add: performGrepSearchWithAnalytics_def split: prod.splits sum.splits)

lemma search_directories_matches:
  assumes "RegExp W p = Inr t"
  shows "fst (search_directories W tb sess p incl multi dirs)
       = fst (search_directories W tb' sess' p incl multi dirs)
     \<and> same_shape tb (fst (snd (search_directories W tb sess p incl multi dirs)))"
proof (induction dirs arbitrary: tb tb')
  case Nil
  show ?case by (simp add: same_shape_refl)
next
  case (Cons d dirs)
  obtain r1 tb1 tr1 where a: "performGrepSearchWithAnalytics W tb sess p d incl = (r1, tb1, tr1)"
    by (cases "performGrepSearchWithAnalytics W tb sess p d incl") auto
  obtain r2 tb2 tr2 where b: "performGrepSearchWithAnalytics W tb' sess' p d incl = (r2, tb2, tr2)"
    by (cases "performGrepSearchWithAnalytics W tb' sess' p d incl") auto
  from with_analytics_matches(1)[OF assms, of tb sess d incl]
       with_analytics_matches(1)[OF assms, of tb' sess' d incl] a b
  have eq: "r1 = r2" by simp
  from with_analytics_matches(2)[OF assms, of tb sess d incl] a
  have sh: "same_shape tb tb1" by simp
  show ?case
  proof (cases r1)
    case (Inl e)
    with eq have "r1 = Inl e" "r2 = Inl e" by simp_all
    with a b sh show ?thesis by simp
  next
    case (Inr ms)
    with eq have r12: "r1 = Inr ms" "r2 = Inr ms" by simp_all
    obtain q1 u1 v1 where c: "search_directories W tb1 sess p incl multi dirs = (q1, u1, v1)"
      by (cases "search_directories W tb1 sess p incl multi dirs") auto
    obtain q2 u2 v2 where d: "search_directories W tb2 sess' p incl multi dirs = (q2, u2, v2)"
      by (cases "search_directories W tb2 sess' p incl multi dirs") auto
    from Cons.IH[of tb1 tb2] c d have q: "q1 = q2" and sh1: "same_shape tb1 u1" by simp_all
    from sh sh1 have sh2: "same_shape tb u1" by (rule same_shape_trans)
    show ?thesis
    proof (cases q1)
      case (Inl e)
      with q have "q1 = Inl e" "q2 = Inl e" by simp_all
      with a b r12 c d sh2 show ?thesis by (simp add: Let_def)
    next
      case (Inr others)
      with q have "q1 = Inr others" "q2 = Inr others" by simp_all
      with a b r12 c d sh2 show ?thesis by (simp add: Let_def)
    qed
  qed
qed

lemma search_directories_inactive:
  assumes "analytics sess = None"
  shows "fst (snd (search_directories W tb sess p incl multi dirs)) = tb"
proof (induction dirs)
  case Nil
  show ?case by simp
next
  case (Cons d dirs)
  obtain r1 tb1 tr1 where a: "performGrepSearchWithAnalytics W tb sess p d incl = (r1, tb1, tr1)"
    by (cases "performGrepSearchWithAnalytics W tb sess p d incl") auto
  with with_analytics_inactive[OF assms, of W tb p d incl] have "tb1 = tb" by simp
  with a Cons.IH show ?case
    by (auto simp: Let_def split: sum.splits prod.splits)
qed

lemma search_body_unfold:
  "search_body W tb sess params =
     (case fst (resolveAndValidatePath W (param_path params)) of
        Inl err \<Rightarrow> (Inl err, tb, snd (resolveAndValidatePath W (param_path params)))
      | Inr dir \<Rightarrow>
          (let dirs = (case dir of None \<Rightarrow> workspaceDirectories W | Some d \<Rightarrow> [d]);
               sd = search_directories W tb sess (param_pattern params) (param_include params)
                      (length dirs > 1) dirs
           in (case fst sd of
                 Inl err \<Rightarrow> Inl err
               | Inr allMatches \<Rightarrow> render_result W params dir allMatches,
               fst (snd sd),
               snd (resolveAndValidatePath W (param_path params)) @ snd (snd sd))))"
  by (simp add: search_body_def Let_def split: prod.splits sum.splits)

lemma search_body_result:
  assumes "RegExp W (param_pattern params) = Inr t"
  shows "fst (search_body W tb sess params) = fst (search_body W tb' sess' params)"
    and "same_shape tb (fst (snd (search_body W tb sess params)))"
proof -
  note sd = search_directories_matches[OF assms]
  show "fst (search_body W tb sess params) = fst (search_body W tb' sess' params)"
  proof (cases "fst (resolveAndValidatePath W (param_path params))")
    case (Inl e)
    then show ?thesis by (simp add: search_body_unfold)
  next
    case (Inr dir)
    let ?dirs = "case dir of None \<Rightarrow> workspaceDirectories W | Some d \<Rightarrow> [d]"
    from sd[of tb sess "param_include params" "length ?dirs > 1" ?dirs tb' sess']
    have "fst (search_directories W tb sess (param_pattern params) (param_include params)
              (length ?dirs > 1) ?dirs)
        = fst (search_directories W tb' sess' (param_pattern params) (param_include params)
              (length ?dirs > 1) ?dirs)"
      by (rule conjunct1)
    with Inr show ?thesis
      by (simp add: search_body_unfold Let_def)
  qed
  show "same_shape tb (fst (snd (search_body W tb sess params)))"
  proof (cases "fst (resolveAndValidatePath W (param_path params))")
    case (Inl e)
    then show ?thesis by (simp add: search_body_unfold same_shape_refl)
  next
    case (Inr dir)
    let ?dirs = "case dir of None \<Rightarrow> workspaceDirectories W | Some d \<Rightarrow> [d]"
    from sd[of tb sess "param_include params" "length ?dirs > 1" ?dirs tb sess]
    have "same_shape tb (fst (snd (search_directories W tb sess (param_pattern params)
        (param_include params) (length ?dirs > 1) ?dirs)))"
      by (rule conjunct2)
    with Inr show ?thesis
      by (simp add: search_body_unfold Let_def)
  qed
qed

lemma search_body_inactive:
  assumes "analytics sess = None"
  shows "fst (snd (search_body W tb sess params)) = tb"
  using search_directories_inactive[OF assms]
  by (cases "fst (resolveAndValidatePath W (param_path params))")
     (simp_all add: search_body_unfold Let_def)

lemma validation_passed_regex:
  assumes "\<not> truthy (fst (validateToolParams W params))"
  shows "\<exists>t. RegExp W (param_pattern params) = Inr t"
  using assms
  by (cases "RegExp W (param_pattern params)")
     (auto simp: validateToolParams_def truthy_def split: if_splits)


lemma execute_unfold:
  "execute W clk tb params =
     (let S = startSearch tb (clock_date clk) (clock_start clk) (param_pattern params) KindGrep
                (if truthy (param_path params) then the (param_path params) else ''.'');
          tb2 = setPattern (fst S) (snd S) (param_pattern params);
          v = validateToolParams W params;
          body = search_body W tb2 (snd S) params
      in if truthy (fst v)
         then (\<lparr>llmContent = ''Error: Invalid parameters provided. Reason: '' @ the (fst v),
                 returnDisplay = ''Model provided invalid parameters. Error: '' @ the (fst v)\<rparr>,
               fst (complete tb2 (snd S) (clock_end clk)), snd v)
         else (case fst body of
                 Inr result \<Rightarrow> result
               | Inl errorMessage \<Rightarrow>
                   \<lparr>llmContent = ''Error during grep search operation: '' @ errorMessage,
                    returnDisplay = ''Error: '' @ errorMessage\<rparr>,
               fst (complete (fst (snd body)) (snd S) (clock_end clk)),
               snd v @ snd (snd body)))"
  by (simp add: execute_def Let_def split: prod.splits sum.splits)

lemma execute_result_independent:
  "fst (execute W clk tb params) = fst (execute W clk tb' params)"
proof (cases "truthy (fst (validateToolParams W params))")
  case True
  then show ?thesis by (simp add: execute_unfold Let_def)
next
  case False
  from validation_passed_regex[OF this] obtain t where "RegExp W (param_pattern params) = Inr t" ..
  note body = search_body_result(1)[OF this]
  from False show ?thesis
    unfolding execute_unfold Let_def
    by (simp add: body[of
      "setPattern (fst (startSearch tb (clock_date clk) (clock_start clk) (param_pattern params) KindGrep
                (if truthy (param_path params) then the (param_path params) else ''.'')))
         (snd (startSearch tb (clock_date clk) (clock_start clk) (param_pattern params) KindGrep
                (if truthy (param_path params) then the (param_path params) else ''.''))) (param_pattern params)"
      "snd (startSearch tb (clock_date clk) (clock_start clk) (param_pattern params) KindGrep
                (if truthy (param_path params) then the (param_path params) else ''.''))"
      "setPattern (fst (startSearch tb' (clock_date clk) (clock_start clk) (param_pattern params) KindGrep
                (if truthy (param_path params) then the (param_path params) else ''.'')))
         (snd (startSearch tb' (clock_date clk) (clock_start clk) (param_pattern params) KindGrep
                (if truthy (param_path params) then the (param_path params) else ''.''))) (param_pattern params)"
      "snd (startSearch tb' (clock_date clk) (clock_start clk) (param_pattern params) KindGrep
                (if truthy (param_path params) then the (param_path params) else ''.''))"])
qed

lemma execute_disabled:
  assumes "\<not> analyticsEnabled tb"
  shows "fst (snd (execute W clk tb params)) = tb"
proof -
  let ?S = "startSearch tb (clock_date clk) (clock_start clk) (param_pattern params) KindGrep
                (if truthy (param_path params) then the (param_path params) else ''.'')"
  from assms have S: "fst ?S = tb" "analytics (snd ?S) = None"
    by (simp_all add: startSearch_def)
  note off = inactive_ops[OF S(2)] search_body_inactive[OF S(2)]
  have c: "fst (complete tb (snd ?S) (clock_end clk)) = tb"
    by (simp add: complete_def S(2))
  show ?thesis
    unfolding execute_unfold Let_def by (simp add: S(1) off c)
qed

lemma execute_enabled:
  assumes "analyticsEnabled tb"
  shows "searchHistory (fst (snd (execute W clk tb params))) = searchHistory tb @ [length (heap tb)]"
    and "length (heap (fst (snd (execute W clk tb params)))) = Suc (length (heap tb))"
proof -
  let ?S = "startSearch tb (clock_date clk) (clock_start clk) (param_pattern params) KindGrep
                (if truthy (param_path params) then the (param_path params) else ''.'')"
  let ?tb2 = "setPattern (fst ?S) (snd ?S) (param_pattern params)"
  note S = startSearch_enabled[OF assms, of "clock_date clk" "clock_start clk" "param_pattern params"
      KindGrep "if truthy (param_path params) then the (param_path params) else ''.''"]
  have sh2: "same_shape (fst ?S) ?tb2" by (rule same_shape_ops)
  have fin: "searchHistory (fst (complete tbx (snd ?S) (clock_end clk))) = searchHistory tb @ [length (heap tb)]
      \<and> length (heap (fst (complete tbx (snd ?S) (clock_end clk)))) = Suc (length (heap tb))"
    if "same_shape (fst ?S) tbx" for tbx
  proof -
    from that S have r: "length (heap tb) < length (heap tbx)" and h: "searchHistory tbx = searchHistory tb"
      and l: "length (heap tbx) = Suc (length (heap tb))"
      by (simp_all add: same_shape_def)
    from complete_active[OF S(1) r S(2), of "clock_end clk"] h l show ?thesis by simp
  qed
  have both: "searchHistory (fst (snd (execute W clk tb params))) = searchHistory tb @ [length (heap tb)]
      \<and> length (heap (fst (snd (execute W clk tb params)))) = Suc (length (heap tb))"
  proof (cases "truthy (fst (validateToolParams W params))")
    case True
    with fin[OF sh2] show ?thesis
      unfolding execute_unfold Let_def by simp
  next
    case False
    from validation_passed_regex[OF this] obtain t where "RegExp W (param_pattern params) = Inr t" ..
    from search_body_result(2)[OF this, of ?tb2 "snd ?S"]
    have "same_shape ?tb2 (fst (snd (search_body W ?tb2 (snd ?S) params)))" .
    with sh2 have "same_shape (fst ?S) (fst (snd (search_body W ?tb2 (snd ?S) params)))"
      by (rule same_shape_trans)
    from fin[OF this] False show ?thesis
      unfolding execute_unfold Let_def by simp
  qed
  from both show "searchHistory (fst (snd (execute W clk tb params))) = searchHistory tb @ [length (heap tb)]"
    and "length (heap (fst (snd (execute W clk tb params)))) = Suc (length (heap tb))"
    by simp_all
qed

lemma sample_execute_disabled:
  "fst (execute (sample_world (Closed (Some 0) ''a.txt:3:// TODO fix'' []) (Closed (Some 0) [] []))
          sample_clock (sample_bench False)
          \<lparr>param_pattern = ''todo'', param_path = None, param_include = None\<rparr>)
     = \<lparr>llmContent = ''Found 1 match for pattern '' @ dquote @ ''todo'' @ dquote
                       @ '' in the workspace directory:'' @ [CHR 0x0A] @ ''---'' @ [CHR 0x0A]
                       @ ''File: a.txt'' @ [CHR 0x0A] @ ''L3: // TODO fix'' @ [CHR 0x0A] @ ''---'',
        returnDisplay = ''Found 1 match''\<rparr>"
  by code_simp

text \<open>
  C1. The result that \<open>execute\<close> returns, its text for the model and its display text,
  is the same with analytics enabled and disabled, for every world, pattern, path and
  filter. For a pattern that compiles (as every pattern that passed validation does), the
  search with analytics returns the match list of the plain search, whatever the session.
  With analytics disabled the telemetry state is unchanged; with analytics enabled one
  record is allocated and the history grows by exactly that record.
\<close>

theorem telemetry_noninterference:
  "fst (execute W clk (tb\<lparr>analyticsEnabled := True\<rparr>) params)
     = fst (execute W clk (tb\<lparr>analyticsEnabled := False\<rparr>) params)
   \<and> (RegExp W pattern = Inr regex_test \<longrightarrow>
        fst (performGrepSearchWithAnalytics W tb sess pattern searchPath incl)
          = fst (performGrepSearch W pattern searchPath incl))
   \<and> fst (snd (execute W clk (tb\<lparr>analyticsEnabled := False\<rparr>) params))
       = tb\<lparr>analyticsEnabled := False\<rparr>
   \<and> searchHistory (fst (snd (execute W clk (tb\<lparr>analyticsEnabled := True\<rparr>) params)))
       = searchHistory tb @ [length (heap tb)]
   \<and> length (heap (fst (snd (execute W clk (tb\<lparr>analyticsEnabled := True\<rparr>) params))))
       = Suc (length (heap tb))"
proof (intro conjI impI)
  show "fst (execute W clk (tb\<lparr>analyticsEnabled := True\<rparr>) params)
     = fst (execute W clk (tb\<lparr>analyticsEnabled := False\<rparr>) params)"
    by (rule execute_result_independent)
next
  assume "RegExp W pattern = Inr regex_test"
  then show "fst (performGrepSearchWithAnalytics W tb sess pattern searchPath incl)
          = fst (performGrepSearch W pattern searchPath incl)"
    by (rule with_analytics_matches(1))
next
  show "fst (snd (execute W clk (tb\<lparr>analyticsEnabled := False\<rparr>) params))
       = tb\<lparr>analyticsEnabled := False\<rparr>"
    by (rule execute_disabled) simp
next
  show "searchHistory (fst (snd (execute W clk (tb\<lparr>analyticsEnabled := True\<rparr>) params)))
       = searchHistory tb @ [length (heap tb)]"
    using execute_enabled(1)[of "tb\<lparr>analyticsEnabled := True\<rparr>" W clk params] by simp
next
  show "length (heap (fst (snd (execute W clk (tb\<lparr>analyticsEnabled := True\<rparr>) params))))
       = Suc (length (heap tb))"
    using execute_enabled(2)[of "tb\<lparr>analyticsEnabled := True\<rparr>" W clk params] by simp
qed


theorem telemetry_noninterference_witness:
  "RegExp (sample_world (Closed (Some 0) ''a.txt:3:// TODO fix'' []) (Closed (Some 0) [] [])) ''todo''
     = Inr (\<lambda>l. js_includes (toLowerCase l) (toLowerCase ''todo''))
   \<and> fst (performGrepSearchWithAnalytics
          (sample_world (Closed (Some 0) ''a.txt:3:// TODO fix'' []) (Closed (Some 0) [] []))
          (fst sample_started) (snd sample_started) ''todo'' ''/ws'' None)
       = Inr [\<lparr>filePath = ''a.txt'', lineNumber = 3, line = ''// TODO fix''\<rparr>]
   \<and> fst (execute (sample_world (Closed (Some 0) ''a.txt:3:// TODO fix'' []) (Closed (Some 0) [] []))
          sample_clock (sample_bench True)
          \<lparr>param_pattern = ''todo'', param_path = None, param_include = None\<rparr>)
       = \<lparr>llmContent = ''Found 1 match for pattern '' @ dquote @ ''todo'' @ dquote
                       @ '' in the workspace directory:'' @ [CHR 0x0A] @ ''---'' @ [CHR 0x0A]
                       @ ''File: a.txt'' @ [CHR 0x0A] @ ''L3: // TODO fix'' @ [CHR 0x0A] @ ''---'',
          returnDisplay = ''Found 1 match''\<rparr>
   \<and> searchHistory (fst (snd (execute
          (sample_world (Closed (Some 0) ''a.txt:3:// TODO fix'' []) (Closed (Some 0) [] []))
          sample_clock (sample_bench True)
          \<lparr>param_pattern = ''todo'', param_path = None, param_include = None\<rparr>))) = [0]
   \<and> fst (snd (execute
          (sample_world (Closed (Some 0) ''a.txt:3:// TODO fix'' []) (Closed (Some 0) [] []))
          sample_clock (sample_bench False)
          \<lparr>param_pattern = ''todo'', param_path = None, param_include = None\<rparr>)) = sample_bench False"
proof -
  let ?W = "sample_world (Closed (Some 0) ''a.txt:3:// TODO fix'' []) (Closed (Some 0) [] [])"
  let ?p = "\<lparr>param_pattern = ''todo'', param_path = None, param_include = None\<rparr>"
  let ?t = "\<lambda>l. js_includes (toLowerCase l) (toLowerCase ''todo'')"
  note inst = telemetry_noninterference[where W="?W" and clk=sample_clock and tb="sample_bench False"
      and params="?p" and pattern="''todo''" and regex_test="?t" and sess="snd sample_started"
      and searchPath="''/ws''" and incl=None]
  note inst2 = telemetry_noninterference[where W="?W" and clk=sample_clock and tb="fst sample_started"
      and params="?p" and pattern="''todo''" and regex_test="?t" and sess="snd sample_started"
      and searchPath="''/ws''" and incl=None]
  have on: "(sample_bench False)\<lparr>analyticsEnabled := True\<rparr> = sample_bench True"
    and off: "(sample_bench False)\<lparr>analyticsEnabled := False\<rparr> = sample_bench False"
    and empty: "searchHistory (sample_bench False) = []" "heap (sample_bench False) = []"
    by (simp_all add: sample_bench_def)
  have re: "RegExp ?W ''todo'' = Inr ?t"
    by (simp add: sample_world_def sample_RegExp_def)
  have plain: "fst (performGrepSearch ?W ''todo'' ''/ws'' None)
      = Inr [\<lparr>filePath = ''a.txt'', lineNumber = 3, line = ''// TODO fix''\<rparr>]"
    using performGrepSearch_git[where W="?W" and absolutePath="''/ws''" and pattern="''todo''"
        and incl=None, OF sample_world_available(1)]
    by (simp add: sample_world_spawn gitGrepSettled_Closed sample_parse)
  from inst2 re plain have a: "fst (performGrepSearchWithAnalytics ?W (fst sample_started)
      (snd sample_started) ''todo'' ''/ws'' None)
       = Inr [\<lparr>filePath = ''a.txt'', lineNumber = 3, line = ''// TODO fix''\<rparr>]"
    by simp
  from inst have b: "fst (execute ?W sample_clock (sample_bench True) ?p)
      = fst (execute ?W sample_clock (sample_bench False) ?p)"
    by (simp add: on off)
  from inst have c: "searchHistory (fst (snd (execute ?W sample_clock (sample_bench True) ?p))) = [0]"
    by (simp add: on empty)
  from inst have d: "fst (snd (execute ?W sample_clock (sample_bench False) ?p)) = sample_bench False"
    by (simp add: off)
  from re a b c d sample_execute_disabled show ?thesis by simp
qed

section \<open>Completion of a session\<close>

text \<open>
  C5, as amended. On an active session every call of \<open>complete\<close>, the first and any later
  one, computes the elapsed time from the start instant of the session, stores it in
  \<open>executionTimeMs\<close> and appends the record to the history through the completion
  callback: there is no guard that makes a second call do nothing, and two calls leave
  two history entries for the same record. On a disabled session \<open>complete\<close> changes
  nothing. \<open>startSearch\<close> gives an active session exactly when analytics are enabled.
  \<open>execute\<close> completes its session once on every path, so that one search with
  analytics enabled adds exactly one entry to the history.
\<close>

theorem complete_appends_every_time:
  "(analytics sess = Some r \<longrightarrow> r < length (heap tb) \<longrightarrow> onComplete sess = Some HistoryCallback \<longrightarrow>
      searchHistory (fst (complete tb sess now)) = searchHistory tb @ [r]
      \<and> executionTimeMs (heap (fst (complete tb sess now)) ! r) = now - startTime sess
      \<and> length (heap (fst (complete tb sess now))) = length (heap tb)
      \<and> searchHistory (fst (complete (fst (complete tb sess now)) sess later))
          = searchHistory tb @ [r, r]
      \<and> executionTimeMs (heap (fst (complete (fst (complete tb sess now)) sess later)) ! r)
          = later - startTime sess)
   \<and> (analytics sess = None \<longrightarrow> complete tb sess now = (tb, None))
   \<and> (analyticsEnabled tb \<longrightarrow>
        analytics (snd (startSearch tb d t q kind target)) = Some (length (heap tb))
        \<and> length (heap tb) < length (heap (fst (startSearch tb d t q kind target)))
        \<and> onComplete (snd (startSearch tb d t q kind target)) = Some HistoryCallback
        \<and> startTime (snd (startSearch tb d t q kind target)) = t)
   \<and> (\<not> analyticsEnabled tb \<longrightarrow>
        analytics (snd (startSearch tb d t q kind target)) = None)
   \<and> (analyticsEnabled tb \<longrightarrow>
        searchHistory (fst (snd (execute W clk tb params))) = searchHistory tb @ [length (heap tb)])"
proof -
  have a: "analytics sess = Some r \<longrightarrow> r < length (heap tb) \<longrightarrow> onComplete sess = Some HistoryCallback \<longrightarrow>
      searchHistory (fst (complete tb sess now)) = searchHistory tb @ [r]
      \<and> executionTimeMs (heap (fst (complete tb sess now)) ! r) = now - startTime sess
      \<and> length (heap (fst (complete tb sess now))) = length (heap tb)
      \<and> searchHistory (fst (complete (fst (complete tb sess now)) sess later))
          = searchHistory tb @ [r, r]
      \<and> executionTimeMs (heap (fst (complete (fst (complete tb sess now)) sess later)) ! r)
          = later - startTime sess"
  proof (intro impI)
    assume h: "analytics sess = Some r" "r < length (heap tb)" "onComplete sess = Some HistoryCallback"
    note first = complete_active[OF h, of now]
    from first(3) h(2) have r': "r < length (heap (fst (complete tb sess now)))" by simp
    note second = complete_active[OF h(1) r' h(3), of later]
    from first second show "searchHistory (fst (complete tb sess now)) = searchHistory tb @ [r]
      \<and> executionTimeMs (heap (fst (complete tb sess now)) ! r) = now - startTime sess
      \<and> length (heap (fst (complete tb sess now))) = length (heap tb)
      \<and> searchHistory (fst (complete (fst (complete tb sess now)) sess later))
          = searchHistory tb @ [r, r]
      \<and> executionTimeMs (heap (fst (complete (fst (complete tb sess now)) sess later)) ! r)
          = later - startTime sess"
      by simp
  qed
  have b: "analytics sess = None \<longrightarrow> complete tb sess now = (tb, None)"
    by (simp add: complete_def)
  have c: "analyticsEnabled tb \<longrightarrow>
        analytics (snd (startSearch tb d t q kind target)) = Some (length (heap tb))
        \<and> length (heap tb) < length (heap (fst (startSearch tb d t q kind target)))
        \<and> onComplete (snd (startSearch tb d t q kind target)) = Some HistoryCallback
        \<and> startTime (snd (startSearch tb d t q kind target)) = t"
    using startSearch_enabled[of tb d t q kind target] by simp
  have d: "\<not> analyticsEnabled tb \<longrightarrow> analytics (snd (startSearch tb d t q kind target)) = None"
    by (simp add: startSearch_def)
  have e: "analyticsEnabled tb \<longrightarrow>
        searchHistory (fst (snd (execute W clk tb params))) = searchHistory tb @ [length (heap tb)]"
    using execute_enabled(1)[of tb W clk params] by simp
  from a b c d e show ?thesis by (intro conjI)
qed

theorem complete_appends_every_time_witness:
  "analytics (snd sample_started) = Some 0
   \<and> 0 < length (heap (fst sample_started))
   \<and> onComplete (snd sample_started) = Some HistoryCallback
   \<and> searchHistory completed_once = [0]
   \<and> executionTimeMs (heap completed_once ! 0) = 7
   \<and> analytics (snd (startSearch (sample_bench False) 1000 5 ''TODO'' KindGrep ''.'')) = None
   \<and> complete (sample_bench False)
        (snd (startSearch (sample_bench False) 1000 5 ''TODO'' KindGrep ''.'')) 12
      = (sample_bench False, None)
   \<and> analyticsEnabled (sample_bench True)
   \<and> \<not> analyticsEnabled (sample_bench False)
   \<and> searchHistory (fst (snd (execute
          (sample_world (Closed (Some 0) ''a.txt:3:// TODO fix'' []) (Closed (Some 0) [] []))
          sample_clock (sample_bench True)
          \<lparr>param_pattern = ''todo'', param_path = None, param_include = None\<rparr>))) = [0]"
proof -
  note run = complete_appends_every_time[where tb="sample_bench True" and clk=sample_clock
      and W="sample_world (Closed (Some 0) ''a.txt:3:// TODO fix'' []) (Closed (Some 0) [] [])"
      and params="\<lparr>param_pattern = ''todo'', param_path = None, param_include = None\<rparr>"
      and sess="snd sample_started" and r=0 and now=12 and later=20 and d=1000 and t=5
      and q="''TODO''" and kind=KindGrep and target="''.''"]
  note on = complete_appends_every_time[of "snd sample_started" 0 "fst sample_started" 12 20
      1000 5 "''TODO''" KindGrep "''.''"]
  note off = complete_appends_every_time[of
      "snd (startSearch (sample_bench False) 1000 5 ''TODO'' KindGrep ''.'')" 0 "sample_bench False" 12 20
      1000 5 "''TODO''" KindGrep "''.''"]
  have en: "analyticsEnabled (sample_bench True)" "\<not> analyticsEnabled (sample_bench False)"
    by (simp_all add: sample_bench_def)
  from off en have none: "analytics (snd (startSearch (sample_bench False) 1000 5 ''TODO'' KindGrep ''.'')) = None"
    by simp
  with off have noop: "complete (sample_bench False)
        (snd (startSearch (sample_bench False) 1000 5 ''TODO'' KindGrep ''.'')) 12
      = (sample_bench False, None)"
    by simp
  from on sample_started_session have "searchHistory completed_once = [0]"
      "executionTimeMs (heap completed_once ! 0) = 7"
    by (simp_all add: completed_once_def)
  moreover from run en have "searchHistory (fst (snd (execute
          (sample_world (Closed (Some 0) ''a.txt:3:// TODO fix'' []) (Closed (Some 0) [] []))
          sample_clock (sample_bench True)
          \<lparr>param_pattern = ''todo'', param_path = None, param_include = None\<rparr>))) = [0]"
    by (simp add: sample_bench_def)
  ultimately show ?thesis using sample_started_session none noop en by simp
qed

text \<open>
  A second call is not a no-op: completing the sample session at time 12 and again at
  time 20 leaves two history entries, and the second call replaces the elapsed time 7 by
  15.
\<close>

theorem complete_twice_appends_twice:
  "searchHistory completed_once = [0]
   \<and> executionTimeMs (heap completed_once ! 0) = 7
   \<and> searchHistory completed_twice = [0, 0]
   \<and> executionTimeMs (heap completed_twice ! 0) = 15
   \<and> completed_twice \<noteq> completed_once"
proof -
  have r: "0 < length (heap (fst sample_started))"
    using sample_started_session by simp
  note first = complete_active[OF sample_started_session(1) r sample_started_session(2), of 12]
  from first(3) r have r': "0 < length (heap completed_once)"
    by (simp add: completed_once_def)
  note second = complete_active[OF sample_started_session(1) r' sample_started_session(2), of 20]
  have once: "searchHistory completed_once = [0]" "executionTimeMs (heap completed_once ! 0) = 7"
    using first sample_started_session by (simp_all add: completed_once_def)
  have twice: "searchHistory completed_twice = [0, 0]" "executionTimeMs (heap completed_twice ! 0) = 15"
    using second once sample_started_session by (simp_all add: completed_twice_def)
  from once twice have "completed_twice \<noteq> completed_once" by auto
  with once twice show ?thesis by simp
qed

end
